theory Spec2Isabelle
  imports Main "HOL-Library.Char_ord" "HOL-Library.List_Lexorder" "HOL-Library.Sublist"
begin

section \<open>JavaScript values used by the server\<close>

text \<open>
  The server part of \<^verbatim>\<open>app.js\<close> (the Express handlers) is embedded here. A JavaScript
  string is a \<^typ>\<open>string\<close>; a property that may be \<^verbatim>\<open>undefined\<close> or \<^verbatim>\<open>null\<close> is an
  \<^typ>\<open>'a option\<close>. A plain object used as a dictionary is a map holding its own
  properties. The keys of the catalogue and of the comment store are taken not to be names
  of members that a plain object inherits from \<^verbatim>\<open>Object.prototype\<close>; for the like store,
  whose key comes from the URL of the request, the inherited members are part of the
  model. Strings are sequences of ASCII code units, so \<^const>\<open>length\<close> is the JavaScript
  \<^verbatim>\<open>.length\<close>.
\<close>

text \<open>Truthiness of a string, and of a string-valued property that may be missing.\<close>

definition truthy :: "string \<Rightarrow> bool" where
  "truthy s = (s \<noteq> [])"

definition truthy_opt :: "string option \<Rightarrow> bool" where
  "truthy_opt v = (case v of None \<Rightarrow> False | Some s \<Rightarrow> truthy s)"

text \<open>\<^verbatim>\<open>a || b\<close> on string-valued properties.\<close>

definition js_or :: "string option \<Rightarrow> string option \<Rightarrow> string option" where
  "js_or a b = (if truthy_opt a then a else b)"

text \<open>\<^verbatim>\<open>String.prototype.trim\<close>: the white space and line terminators of the ASCII range.\<close>

definition isWhiteSpace :: "char \<Rightarrow> bool" where
  "isWhiteSpace c = (c \<in> set [CHR 0x09, CHR 0x0A, CHR 0x0B, CHR 0x0C, CHR 0x0D, CHR '' ''])"

definition trim :: "string \<Rightarrow> string" where
  "trim s = rev (dropWhile isWhiteSpace (rev (dropWhile isWhiteSpace s)))"

text \<open>Decimal printing of a number inside a template literal.\<close>

definition digit_char :: "nat \<Rightarrow> char" where
  "digit_char d = ''0123456789'' ! d"

fun show_nat :: "nat \<Rightarrow> string" where
  "show_nat n = (if n < 10 then [digit_char n]
                 else show_nat (n div 10) @ [digit_char (n mod 10)])"

declare show_nat.simps [simp del]

definition show_int :: "int \<Rightarrow> string" where
  "show_int i = (if i < 0 then CHR ''-'' # show_nat (nat (- i)) else show_nat (nat i))"

text \<open>
  The responses that are not 200: \<^verbatim>\<open>401\<close> (no username), \<^verbatim>\<open>400\<close> (rejected input),
  \<^verbatim>\<open>404\<close>, and the \<^verbatim>\<open>500\<close> that Express sends when the handler throws.
\<close>

datatype error = AuthError | ValidationError | NotFoundError | ServerError

section \<open>Comments\<close>

text \<open>
  A record of \<^verbatim>\<open>commentsDB[id]\<close>. Records written before comment likes existed hold
  only \<^verbatim>\<open>username\<close>, \<^verbatim>\<open>text\<close>, \<^verbatim>\<open>createdAt\<close> and perhaps a plain \<^verbatim>\<open>likes\<close> count.
\<close>

record comment =
  c_id :: "string option"
  c_username :: string
  c_text :: string
  c_createdAt :: string
  c_likedBy :: "string list option"
  c_likes :: "int option"

text \<open>An element of the \<^verbatim>\<open>items\<close> array that \<^verbatim>\<open>GET /api/articles/:id/comments\<close> sends.\<close>

record comment_view =
  v_id :: "string option"
  v_username :: string
  v_text :: string
  v_createdAt :: string
  v_likedBy :: "string list option"
  v_likes :: int
  v_liked :: bool

type_synonym commentsDB = "string \<rightharpoonup> comment list"

text \<open>The string that is hashed into a comment id.\<close>

definition commentKey :: "string \<Rightarrow> string \<Rightarrow> string \<Rightarrow> string \<Rightarrow> string" where
  "commentKey aid username createdAt text =
     aid @ ''|'' @ username @ ''|'' @ createdAt @ ''|'' @ text"

text \<open>
  The first half of the \<^verbatim>\<open>items.map\<close> callback of \<^verbatim>\<open>listComments\<close>: the in-place
  upgrade of a record with no id. The flag is \<^verbatim>\<open>mutated\<close>. The hash
  \<^verbatim>\<open>crypto.createHash('sha1')...digest('hex')\<close> is the parameter \<open>sha1\<close>.
\<close>

definition upgradeComment :: "(string \<Rightarrow> string) \<Rightarrow> string \<Rightarrow> comment \<Rightarrow> comment \<times> bool" where
  "upgradeComment sha1 aid it =
     (if \<not> truthy_opt (c_id it)
      then (it\<lparr>c_id := Some (sha1 (commentKey aid (c_username it) (c_createdAt it) (c_text it))),
               c_likedBy := Some (case c_likedBy it of None \<Rightarrow> [] | Some l \<Rightarrow> l)\<rparr>, True)
      else (it, False))"

text \<open>The second half of the callback: the view of the (upgraded) record.\<close>

definition commentView :: "string option \<Rightarrow> comment \<Rightarrow> comment_view" where
  "commentView username it =
     (let likes = (case c_likedBy it of
                     Some l \<Rightarrow> int (length l)
                   | None \<Rightarrow> (case c_likes it of None \<Rightarrow> 0 | Some n \<Rightarrow> n));
          liked = (truthy_opt username \<and>
                   (case c_likedBy it of None \<Rightarrow> False | Some l \<Rightarrow> the username \<in> set l))
      in \<lparr>v_id = c_id it, v_username = c_username it, v_text = c_text it,
          v_createdAt = c_createdAt it, v_likedBy = c_likedBy it,
          v_likes = likes, v_liked = liked\<rparr>)"

text \<open>
  \<^verbatim>\<open>app.get('/api/articles/:id/comments')\<close>: the items sent, the comment store after the
  in-place upgrades, and whether \<^verbatim>\<open>saveDB\<close> was called.
\<close>

definition listComments ::
  "(string \<Rightarrow> string) \<Rightarrow> commentsDB \<Rightarrow> string \<Rightarrow> string option
     \<Rightarrow> comment_view list \<times> commentsDB \<times> bool" where
  "listComments sha1 db aid username =
     (let items = (case db aid of None \<Rightarrow> [] | Some xs \<Rightarrow> xs);
          upgraded = map (upgradeComment sha1 aid) items;
          mutated = (\<exists>u \<in> set upgraded. snd u);
          out = map (\<lambda>u. commentView username (fst u)) upgraded
      in (out, (if mutated then db(aid \<mapsto> map fst upgraded) else db), mutated))"

text \<open>
  \<^verbatim>\<open>app.post('/api/articles/:id/comments')\<close>. A missing \<^verbatim>\<open>username\<close> or \<^verbatim>\<open>text\<close> of the
  request body is the empty string here (both are falsy). \<open>createdAt\<close> is the reading
  \<^verbatim>\<open>new Date().toISOString()\<close>.
\<close>

definition addComment ::
  "(string \<Rightarrow> string) \<Rightarrow> string \<Rightarrow> commentsDB \<Rightarrow> string \<Rightarrow> string \<Rightarrow> string
     \<Rightarrow> error + (commentsDB \<times> comment)" where
  "addComment sha1 createdAt db aid username text =
     (if \<not> truthy username then Inl AuthError
      else if \<not> truthy text then Inl ValidationError
      else if \<not> truthy (trim text) then Inl ValidationError
      else
        let commentId = sha1 (commentKey aid username createdAt (trim text));
            item = \<lparr>c_id = Some commentId, c_username = username, c_text = trim text,
                    c_createdAt = createdAt, c_likedBy = Some [], c_likes = Some 0\<rparr>
        in Inr (db(aid \<mapsto> (case db aid of None \<Rightarrow> [] | Some xs \<Rightarrow> xs) @ [item]), item))"

text \<open>Newest first: every comment is listed before all comments created earlier.\<close>

definition newestFirst :: "comment_view list \<Rightarrow> bool" where
  "newestFirst vs = sorted_wrt (\<lambda>a b. v_createdAt b < v_createdAt a) vs"

section \<open>Article likes\<close>

text \<open>
  An entry of \<^verbatim>\<open>likesDB\<close>. The JavaScript \<^verbatim>\<open>Set\<close> of user names is the list of its
  members in insertion order (what \<^verbatim>\<open>Array.from\<close> yields), without repetition.
\<close>

record like_record =
  count :: int
  users :: "string list"

type_synonym likesDB = "string \<rightharpoonup> like_record"

text \<open>The operations of \<^verbatim>\<open>Set\<close> on that representation.\<close>

definition Set_has :: "'a list \<Rightarrow> 'a \<Rightarrow> bool" where
  "Set_has s x = (x \<in> set s)"

definition Set_add :: "'a list \<Rightarrow> 'a \<Rightarrow> 'a list" where
  "Set_add s x = (if x \<in> set s then s else s @ [x])"

definition Set_delete :: "'a list \<Rightarrow> 'a \<Rightarrow> 'a list" where
  "Set_delete s x = removeAll x s"


text \<open>\<^verbatim>\<open>new Set(array)\<close>: the elements in order of first occurrence.\<close>

fun Set_new :: "'a list \<Rightarrow> 'a list" where
  "Set_new [] = []"
| "Set_new (x # xs) = x # Set_new (removeAll x xs)"

text \<open>The JSON body of the like response.\<close>

record like_response =
  likes :: int
  liked :: bool

text \<open>
  The names of the members that \<^verbatim>\<open>likesDB\<close>, a plain object, inherits from
  \<^verbatim>\<open>Object.prototype\<close>. For such a name with no entry of its own, \<^verbatim>\<open>likesDB[id]\<close> is the
  inherited member: truthy, and without \<^verbatim>\<open>users\<close>.
\<close>

definition objectPrototypeKeys :: "string list" where
  "objectPrototypeKeys =
     [''constructor'', ''__proto__'', ''hasOwnProperty'', ''isPrototypeOf'',
      ''propertyIsEnumerable'', ''toLocaleString'', ''toString'', ''valueOf'',
      ''__defineGetter__'', ''__defineSetter__'', ''__lookupGetter__'', ''__lookupSetter__'']"

text \<open>
  The record the handler works on: the stored one, or the one created by
  \<^verbatim>\<open>if (!likesDB[id]) likesDB[id] = { count: 0, users: new Set() }\<close>.
\<close>

definition likeRecord :: "likesDB \<Rightarrow> string \<Rightarrow> like_record" where
  "likeRecord db aid = (case db aid of None \<Rightarrow> \<lparr>count = 0, users = []\<rparr> | Some r \<Rightarrow> r)"

text \<open>
  \<^verbatim>\<open>app.post("/api/articles/:id/like")\<close>. A missing \<^verbatim>\<open>username\<close> is the empty string. For
  the name of an inherited member with no entry of its own, no record is created and
  \<^verbatim>\<open>likesDB[id].users.has\<close> throws a TypeError.
\<close>

definition toggleArticleLike ::
  "likesDB \<Rightarrow> string \<Rightarrow> string \<Rightarrow> error + (likesDB \<times> like_response)" where
  "toggleArticleLike db aid username =
     (if \<not> truthy username then Inl AuthError
      else if db aid = None \<and> aid \<in> set objectPrototypeKeys then Inl ServerError
      else
        let r = likeRecord db aid in
        if Set_has (users r) username
        then (let r' = r\<lparr>users := Set_delete (users r) username, count := count r - 1\<rparr>
              in Inr (db(aid \<mapsto> r'), \<lparr>likes = count r', liked = False\<rparr>))
        else (let r' = r\<lparr>users := Set_add (users r) username, count := count r + 1\<rparr>
              in Inr (db(aid \<mapsto> r'), \<lparr>likes = count r', liked = True\<rparr>)))"






section \<open>Articles: upstream records, the catalogue, the items sent\<close>

text \<open>
  An element of \<^verbatim>\<open>data.articles\<close> as NewsAPI returns it; \<open>r_sourceName\<close> is
  \<^verbatim>\<open>n.source?.name\<close>.
\<close>

record raw_article =
  r_title :: "string option"
  r_description :: "string option"
  r_urlToImage :: "string option"
  r_publishedAt :: "string option"
  r_url :: "string option"
  r_sourceName :: "string option"

text \<open>The same with its upstream category: \<^verbatim>\<open>{ ...a, apiCategory: cat }\<close>.\<close>

record news_article =
  n_title :: "string option"
  n_description :: "string option"
  n_urlToImage :: "string option"
  n_publishedAt :: "string option"
  n_url :: "string option"
  n_sourceName :: "string option"
  n_apiCategory :: string

definition tagArticle :: "string \<Rightarrow> raw_article \<Rightarrow> news_article" where
  "tagArticle cat a =
     \<lparr>n_title = r_title a, n_description = r_description a, n_urlToImage = r_urlToImage a,
      n_publishedAt = r_publishedAt a, n_url = r_url a, n_sourceName = r_sourceName a,
      n_apiCategory = cat\<rparr>"

text \<open>
  A value of \<^verbatim>\<open>articleStore\<close>. \<^verbatim>\<open>/api/news\<close> writes \<^verbatim>\<open>categories\<close> and
  \<^verbatim>\<open>primaryCategory\<close>; \<^verbatim>\<open>/api/trending\<close> writes \<^verbatim>\<open>category\<close>.
\<close>

record article =
  a_id :: string
  a_title :: "string option"
  a_summary :: "string option"
  a_cover :: "string option"
  a_publishedAt :: "string option"
  a_url :: "string option"
  a_source :: "string option"
  a_categories :: "string list option"
  a_primaryCategory :: "string option"
  a_category :: "string option"

type_synonym articleStore = "string \<rightharpoonup> article"

text \<open>An element of the \<^verbatim>\<open>items\<close> array of \<^verbatim>\<open>/api/news\<close>.\<close>

record item =
  i_id :: string
  i_title :: "string option"
  i_summary :: "string option"
  i_cover :: "string option"
  i_category :: string
  i_publishedAt :: "string option"
  i_likes :: int
  i_url :: "string option"
  i_source :: "string option"

record news_response =
  resp_items :: "item list"
  totalResults :: nat

text \<open>
  The query of \<^verbatim>\<open>/api/news\<close> after its defaults; \<open>page\<close> and \<open>pageSize\<close> stand for
  \<^verbatim>\<open>Number(page)\<close> and \<^verbatim>\<open>Number(pageSize)\<close>, taken to be integers.
\<close>

record request =
  category :: string
  q :: string
  page :: int
  pageSize :: int

text \<open>The parameters of a \<^verbatim>\<open>top-headlines\<close> call that vary between the call sites.\<close>

record headlines_query =
  hq_category :: string
  hq_q :: "string option"
  hq_pageSize :: string

text \<open>
  What the handlers take from outside the process. \<open>httpJSON\<close> is \<^verbatim>\<open>None\<close> when the
  call throws (network failure, timeout, a status that is not 2xx) and otherwise holds
  \<^verbatim>\<open>data.articles\<close>, which may be absent. \<open>Date_now i\<close> is the reading of the clock
  made while element \<open>i\<close> is processed (in the \<^verbatim>\<open>catch\<close> block: the \<open>i\<close>-th reading).
  \<open>Date_getTime s\<close> is \<^verbatim>\<open>new Date(s).getTime()\<close>: the time value, or \<^verbatim>\<open>None\<close> for the
  \<^verbatim>\<open>NaN\<close> of a string that does not parse. \<open>Array_sort_NaN\<close> is the order in which the
  engine's \<^verbatim>\<open>Array.prototype.sort\<close> leaves the records when the comparator yields \<^verbatim>\<open>NaN\<close>
  for some of them: the language leaves the order to the engine when the comparator is
  not consistent.
\<close>

record env =
  sha1_hex :: "string \<Rightarrow> string"
  httpJSON :: "headlines_query \<Rightarrow> raw_article list option option"
  Date_now :: "nat \<Rightarrow> nat"
  Date_getTime :: "string \<Rightarrow> int option"
  Date_toISOString :: "nat \<Rightarrow> string"
  Array_sort_NaN :: "news_article list \<Rightarrow> news_article list"

definition makeIdFromUrl :: "env \<Rightarrow> nat \<Rightarrow> string option \<Rightarrow> string" where
  "makeIdFromUrl e i url =
     (if \<not> truthy_opt url then ''local_'' @ show_nat (Date_now e i)
      else sha1_hex e (the url))"

definition categoryMap :: "string \<Rightarrow> string option" where
  "categoryMap c =
     (if c = ''tech'' then Some ''technology''
      else if c = ''business'' then Some ''business''
      else if c = ''world'' then Some ''general''
      else if c = ''sports'' then Some ''sports''
      else None)"

definition reverseMap :: "string \<Rightarrow> string option" where
  "reverseMap c =
     (if c = ''technology'' then Some ''tech''
      else if c = ''business'' then Some ''business''
      else if c = ''general'' then Some ''world''
      else if c = ''sports'' then Some ''sports''
      else None)"

text \<open>\<^verbatim>\<open>reverseMap[n.apiCategory] || 'world'\<close>.\<close>

definition frontendCat :: "news_article \<Rightarrow> string" where
  "frontendCat n = (case reverseMap (n_apiCategory n) of None \<Rightarrow> ''world'' | Some c \<Rightarrow> c)"

subsection \<open>Collecting the upstream records\<close>

text \<open>One element of \<^verbatim>\<open>fetchPromises\<close>: a failed category yields the empty array.\<close>

definition fetchCategory :: "env \<Rightarrow> string \<Rightarrow> string \<Rightarrow> news_article list" where
  "fetchCategory e query cat =
     (case httpJSON e \<lparr>hq_category = cat, hq_q = Some query, hq_pageSize = ''25''\<rparr> of
        None \<Rightarrow> []
      | Some data \<Rightarrow> map (tagArticle cat) (case data of None \<Rightarrow> [] | Some as \<Rightarrow> as))"

text \<open>\<^verbatim>\<open>(await Promise.all(fetchPromises)).flat()\<close> over \<^verbatim>\<open>categoriesToFetch\<close>.\<close>

definition fanOut :: "env \<Rightarrow> string \<Rightarrow> news_article list" where
  "fanOut e query =
     concat (map (fetchCategory e query) [''technology'', ''business'', ''general'', ''sports''])"

text \<open>\<^verbatim>\<open>new Date(a.publishedAt || 0).getTime()\<close>.\<close>

definition publishedTime :: "env \<Rightarrow> news_article \<Rightarrow> int option" where
  "publishedTime e a =
     (if truthy_opt (n_publishedAt a) then Date_getTime e (the (n_publishedAt a)) else Some 0)"

text \<open>
  \<^verbatim>\<open>allArticles.sort((a, b) => dateB - dateA)\<close>. When every time value is a number the
  comparator is consistent and \<^verbatim>\<open>Array.prototype.sort\<close>, which is stable, is the stable
  sort by decreasing time. When the time value of some record is \<^verbatim>\<open>NaN\<close> the comparator
  yields \<^verbatim>\<open>NaN\<close> on it, and the result is what the engine makes of that.
\<close>

definition sortByDate :: "env \<Rightarrow> news_article list \<Rightarrow> news_article list" where
  "sortByDate e xs =
     (if list_all (\<lambda>a. publishedTime e a \<noteq> None) xs
      then sort_key (\<lambda>a. - the (publishedTime e a)) xs
      else Array_sort_NaN e xs)"

text \<open>The \<^verbatim>\<open>filter\<close> with the \<^verbatim>\<open>seen\<close> set.\<close>

fun dedupByUrl :: "string set \<Rightarrow> news_article list \<Rightarrow> news_article list" where
  "dedupByUrl seen [] = []"
| "dedupByUrl seen (a # as) =
     (if \<not> truthy_opt (n_url a) then dedupByUrl seen as
      else if the (n_url a) \<in> seen then dedupByUrl seen as
      else a # dedupByUrl (insert (the (n_url a)) seen) as)"

text \<open>
  \<open>allArticles\<close> at the end of the \<^verbatim>\<open>if (category === 'news') ... else ...\<close>; \<^verbatim>\<open>None\<close>
  when the single-category call throws, which the outer \<^verbatim>\<open>catch\<close> handles.
\<close>

definition allArticles :: "env \<Rightarrow> request \<Rightarrow> news_article list option" where
  "allArticles e req =
     (if category req = ''news''
      then Some (dedupByUrl {} (sortByDate e (fanOut e (q req))))
      else
        let apiCategory = (case categoryMap (category req) of None \<Rightarrow> ''general'' | Some c \<Rightarrow> c)
        in case httpJSON e \<lparr>hq_category = apiCategory, hq_q = Some (q req), hq_pageSize = ''50''\<rparr> of
             None \<Rightarrow> None
           | Some data \<Rightarrow>
               Some (map (tagArticle apiCategory) (case data of None \<Rightarrow> [] | Some as \<Rightarrow> as)))"

subsection \<open>Cataloguing\<close>

text \<open>\<^verbatim>\<open>existing.f\<close> for \<^verbatim>\<open>existing = articleStore[id] || {}\<close>.\<close>

definition existingField :: "article option \<Rightarrow> (article \<Rightarrow> 'a option) \<Rightarrow> 'a option" where
  "existingField existing f = (case existing of None \<Rightarrow> None | Some a \<Rightarrow> f a)"

text \<open>
  The record that \<^verbatim>\<open>Object.assign({}, existing, {...})\<close> builds for a sighting \<open>n\<close> of
  the article \<open>aid\<close>.
\<close>

definition upsertRecord :: "article option \<Rightarrow> string \<Rightarrow> news_article \<Rightarrow> article" where
  "upsertRecord existing aid n =
     (let existingCategories =
            (case existingField existing a_categories of None \<Rightarrow> [] | Some cs \<Rightarrow> cs);
          newCategories = Set_new (existingCategories @ [frontendCat n, ''news''])
      in \<lparr>a_id = aid,
          a_title = js_or (n_title n) (existingField existing a_title),
          a_summary = js_or (n_description n) (existingField existing a_summary),
          a_cover = js_or (n_urlToImage n) (existingField existing a_cover),
          a_publishedAt = js_or (n_publishedAt n) (existingField existing a_publishedAt),
          a_url = js_or (n_url n) (existingField existing a_url),
          a_source = js_or (js_or (n_sourceName n) (existingField existing a_source)) (Some []),
          a_categories = Some newCategories,
          a_primaryCategory = Some (frontendCat n),
          a_category = existingField existing a_category\<rparr>)"

text \<open>The write \<^verbatim>\<open>articleStore[id] = Object.assign(...)\<close>.\<close>

definition upsert :: "articleStore \<Rightarrow> string \<Rightarrow> news_article \<Rightarrow> articleStore" where
  "upsert store aid n = store(aid \<mapsto> upsertRecord (store aid) aid n)"

text \<open>\<^verbatim>\<open>makeIdFromUrl(n.url) || `news_${category}_${page}_${idx}`\<close>.\<close>

definition newsItemId :: "env \<Rightarrow> request \<Rightarrow> nat \<Rightarrow> news_article \<Rightarrow> string" where
  "newsItemId e req idx n =
     (let aid = makeIdFromUrl e idx (n_url n)
      in if truthy aid then aid
         else ''news_'' @ category req @ ''_'' @ show_int (page req) @ ''_'' @ show_nat idx)"

text \<open>\<^verbatim>\<open>likesDB[id]?.count || 0\<close>.\<close>

definition likeCount :: "likesDB \<Rightarrow> string \<Rightarrow> int" where
  "likeCount likesDB aid = (case likesDB aid of None \<Rightarrow> 0 | Some r \<Rightarrow> count r)"

definition newsItem :: "request \<Rightarrow> likesDB \<Rightarrow> string \<Rightarrow> news_article \<Rightarrow> item" where
  "newsItem req likesDB aid n =
     \<lparr>i_id = aid, i_title = n_title n, i_summary = n_description n, i_cover = n_urlToImage n,
      i_category = (if category req = ''news'' then frontendCat n else category req),
      i_publishedAt = n_publishedAt n, i_likes = likeCount likesDB aid, i_url = n_url n,
      i_source = js_or (n_sourceName n) (Some [])\<rparr>"

text \<open>
  \<^verbatim>\<open>allArticles.map((n, idx) => ...)\<close> from index \<open>idx\<close> on: the items, and the catalogue
  after the writes.
\<close>

fun upsertAll ::
  "env \<Rightarrow> request \<Rightarrow> likesDB \<Rightarrow> nat \<Rightarrow> news_article list \<Rightarrow> articleStore
     \<Rightarrow> item list \<times> articleStore" where
  "upsertAll e req likesDB idx [] store = ([], store)"
| "upsertAll e req likesDB idx (n # ns) store =
     (let aid = newsItemId e req idx n;
          store' = upsert store aid n
      in case upsertAll e req likesDB (Suc idx) ns store' of
           (items, store'') \<Rightarrow> (newsItem req likesDB aid n # items, store''))"

text \<open>
  The filter of a single-category listing:
  \<^verbatim>\<open>stored && stored.categories && stored.categories.includes(category)\<close>.
\<close>

definition inCategory :: "articleStore \<Rightarrow> string \<Rightarrow> item \<Rightarrow> bool" where
  "inCategory store cat it =
     (case store (i_id it) of
        None \<Rightarrow> False
      | Some stored \<Rightarrow> (case a_categories stored of None \<Rightarrow> False | Some cs \<Rightarrow> cat \<in> set cs))"

definition filteredItems :: "request \<Rightarrow> articleStore \<Rightarrow> item list \<Rightarrow> item list" where
  "filteredItems req store items =
     (if category req \<noteq> ''news'' then filter (inCategory store (category req)) items
      else items)"

subsection \<open>Pagination\<close>

text \<open>\<^verbatim>\<open>Array.prototype.slice(start, end)\<close> on integers; a negative index counts from the end.\<close>

definition js_slice :: "'a list \<Rightarrow> int \<Rightarrow> int \<Rightarrow> 'a list" where
  "js_slice xs start end' =
     (let len = int (length xs);
          k = (if start < 0 then max (len + start) 0 else min start len);
          final = (if end' < 0 then max (len + end') 0 else min end' len)
      in take (nat (final - k)) (drop (nat k) xs))"

definition paginate :: "request \<Rightarrow> item list \<Rightarrow> news_response" where
  "paginate req filtered =
     (let startIdx = (page req - 1) * pageSize req;
          endIdx = startIdx + pageSize req
      in \<lparr>resp_items = js_slice filtered startIdx endIdx, totalResults = length filtered\<rparr>)"

subsection \<open>The fallback of the list endpoint\<close>

text \<open>The fixed texts of the placeholder items, as UTF-8 bytes.\<close>

definition sampleTitle :: string where
  "sampleTitle = map char_of [231, 164, 186, 228, 190, 139, 230, 150, 135, 231, 171, 160 :: nat] @ '' - ''"

definition sampleSummary1 :: "string \<Rightarrow> string" where
  "sampleSummary1 cat =
     map char_of [232, 191, 153, 230, 152, 175, 229, 136, 134, 231, 177, 187 :: nat] @ '' '' @ cat @ '' '' @
     map char_of [231, 154, 132, 231, 164, 186, 228, 190, 139, 230, 145, 152, 232, 166, 129,
       239, 188, 140, 231, 148, 168, 228, 186, 142, 231, 166, 187, 231, 186, 191, 229, 177,
       149, 231, 164, 186, 227, 128, 130 :: nat]"

definition sampleSummary2 :: string where
  "sampleSummary2 =
     map char_of [231, 172, 172, 228, 186, 140, 230, 157, 161, 231, 164, 186, 228, 190, 139,
       229, 134, 133, 229, 174, 185, 239, 188, 140, 229, 184, 174, 229, 138, 169, 230, 181,
       139, 232, 175, 149, 229, 136, 134, 231, 177, 187, 232, 191, 135, 230, 187, 164, 227,
       128, 130 :: nat]"

definition sample :: "env \<Rightarrow> request \<Rightarrow> item list" where
  "sample e req =
     [\<lparr>i_id = ''local_'' @ show_nat (Date_now e 0) @ ''_1'',
       i_title = Some (sampleTitle @ category req @ '' - 1''),
       i_summary = Some (sampleSummary1 (category req)),
       i_cover = Some [], i_category = category req,
       i_publishedAt = Some (Date_toISOString e (Date_now e 1)),
       i_likes = 0, i_url = Some [], i_source = None\<rparr>,
      \<lparr>i_id = ''local_'' @ show_nat (Date_now e 2) @ ''_2'',
       i_title = Some (sampleTitle @ category req @ '' - 2''),
       i_summary = Some sampleSummary2,
       i_cover = Some [], i_category = category req,
       i_publishedAt = Some (Date_toISOString e (Date_now e 3)),
       i_likes = 0, i_url = Some [], i_source = None\<rparr>]"

subsection \<open>The list endpoint\<close>

text \<open>
  \<^verbatim>\<open>app.get("/api/news")\<close>: the JSON body sent (always with status 200) and the catalogue
  afterwards. The write of \<^verbatim>\<open>data.json\<close> is not part of the model.
\<close>

definition listArticles ::
  "env \<Rightarrow> likesDB \<Rightarrow> articleStore \<Rightarrow> request \<Rightarrow> news_response \<times> articleStore" where
  "listArticles e likesDB store req =
     (case allArticles e req of
        None \<Rightarrow> (\<lparr>resp_items = sample e req, totalResults = length (sample e req)\<rparr>, store)
      | Some all \<Rightarrow>
          (case upsertAll e req likesDB 0 all store of
             (items, store') \<Rightarrow> (paginate req (filteredItems req store' items), store')))"

subsection \<open>The trending endpoint\<close>

record trend_item =
  t_id :: string
  t_title :: "string option"
  t_url :: "string option"
  t_likes :: int

text \<open>The record stored for an article seen for the first time.\<close>

definition trendingRecord :: "string \<Rightarrow> raw_article \<Rightarrow> article" where
  "trendingRecord aid n =
     \<lparr>a_id = aid, a_title = r_title n, a_summary = r_description n, a_cover = r_urlToImage n,
      a_publishedAt = r_publishedAt n, a_url = r_url n,
      a_source = js_or (r_sourceName n) (Some []),
      a_categories = None, a_primaryCategory = None, a_category = Some ''tech''\<rparr>"

definition trendItemId :: "env \<Rightarrow> nat \<Rightarrow> raw_article \<Rightarrow> string" where
  "trendItemId e idx n =
     (let aid = makeIdFromUrl e idx (r_url n)
      in if truthy aid then aid else ''trend_'' @ show_nat idx)"

fun trendingAll ::
  "env \<Rightarrow> likesDB \<Rightarrow> nat \<Rightarrow> raw_article list \<Rightarrow> articleStore \<Rightarrow> trend_item list \<times> articleStore" where
  "trendingAll e likesDB idx [] store = ([], store)"
| "trendingAll e likesDB idx (n # ns) store =
     (let aid = trendItemId e idx n;
          store' = (if store aid = None then store(aid \<mapsto> trendingRecord aid n) else store)
      in case trendingAll e likesDB (Suc idx) ns store' of
           (items, store'') \<Rightarrow>
             (\<lparr>t_id = aid, t_title = r_title n, t_url = r_url n, t_likes = likeCount likesDB aid\<rparr> # items,
              store''))"

definition trendingSample :: "trend_item list" where
  "trendingSample =
     (let t = map char_of [230, 156, 172, 229, 156, 176, 231, 164, 186, 228, 190, 139, 231,
                131, 173, 231, 130, 185 :: nat]
      in [\<lparr>t_id = ''local_tr_1'', t_title = Some (t @ '' 1''), t_url = Some [], t_likes = 0\<rparr>,
          \<lparr>t_id = ''local_tr_2'', t_title = Some (t @ '' 2''), t_url = Some [], t_likes = 0\<rparr>,
          \<lparr>t_id = ''local_tr_3'', t_title = Some (t @ '' 3''), t_url = Some [], t_likes = 0\<rparr>])"

text \<open>\<^verbatim>\<open>app.get('/api/trending')\<close>.\<close>

definition trending :: "env \<Rightarrow> likesDB \<Rightarrow> articleStore \<Rightarrow> trend_item list \<times> articleStore" where
  "trending e likesDB store =
     (case httpJSON e \<lparr>hq_category = ''technology'', hq_q = None, hq_pageSize = ''10''\<rparr> of
        None \<Rightarrow> (trendingSample, store)
      | Some data \<Rightarrow> trendingAll e likesDB 0 (case data of None \<Rightarrow> [] | Some as \<Rightarrow> as) store)"

section \<open>Derived notions and example inputs\<close>

text \<open>
  The full filtered set of a list request, which the handler then slices: \<open>filteredItems\<close>
  of the items of the request; \<^verbatim>\<open>None\<close> when the handler falls back to the placeholders.
\<close>

definition listing :: "env \<Rightarrow> likesDB \<Rightarrow> articleStore \<Rightarrow> request \<Rightarrow> item list option" where
  "listing e likesDB store req =
     (case allArticles e req of
        None \<Rightarrow> None
      | Some all \<Rightarrow>
          (case upsertAll e req likesDB 0 all store of
             (items, store') \<Rightarrow> Some (filteredItems req store' items)))"

text \<open>Whether the catalogue holds article \<open>aid\<close> with \<open>c\<close> among its categories.\<close>

definition memberOf :: "articleStore \<Rightarrow> string \<Rightarrow> string \<Rightarrow> bool" where
  "memberOf store aid c =
     (case store aid of
        None \<Rightarrow> False
      | Some a \<Rightarrow> (case a_categories a of None \<Rightarrow> False | Some cs \<Rightarrow> c \<in> set cs))"

text \<open>The published time of an item, as the sort reads it.\<close>

definition itemTime :: "env \<Rightarrow> item \<Rightarrow> int option" where
  "itemTime e it =
     (if truthy_opt (i_publishedAt it) then Date_getTime e (the (i_publishedAt it)) else Some 0)"

text \<open>
  Sorted by decreasing published time: no item precedes a more recent one. Items whose
  time is not a number are not compared.
\<close>

definition timeSorted :: "env \<Rightarrow> item list \<Rightarrow> bool" where
  "timeSorted e L =
     sorted_wrt (\<lambda>a b. case itemTime e a of
                          None \<Rightarrow> True
                        | Some x \<Rightarrow> (case itemTime e b of None \<Rightarrow> True | Some y \<Rightarrow> y \<le> x)) L"

text \<open>A stand-in for the hash in the examples (any function serves).\<close>

definition demoHash :: "string \<Rightarrow> string" where
  "demoHash s = ''#'' @ s"

text \<open>An environment in which every upstream call fails.\<close>

definition failingEnv :: env where
  "failingEnv =
     \<lparr>sha1_hex = demoHash, httpJSON = (\<lambda>qy. None), Date_now = (\<lambda>i. 1700000000000 + i),
      Date_getTime = (\<lambda>s. None), Date_toISOString = (\<lambda>t. ''2023-11-14T22:13:20.000Z''),
      Array_sort_NaN = (\<lambda>xs. xs)\<rparr>"

text \<open>
  Upstream records for the examples: \<open>rawA\<close> and \<open>rawA'\<close> share a URL, \<open>rawA'\<close> being
  the more recent; \<open>rawB\<close> has no timestamp, \<open>rawN\<close> neither URL nor timestamp.
\<close>

definition rawA :: raw_article where
  "rawA = \<lparr>r_title = Some ''A'', r_description = Some ''about A'', r_urlToImage = None,
            r_publishedAt = Some ''2024-01-01T00:00:00Z'', r_url = Some ''http://x/a'',
            r_sourceName = Some ''Wire''\<rparr>"

definition rawA' :: raw_article where
  "rawA' = \<lparr>r_title = Some ''A again'', r_description = None, r_urlToImage = None,
             r_publishedAt = Some ''2024-01-02T00:00:00Z'', r_url = Some ''http://x/a'',
             r_sourceName = None\<rparr>"

definition rawB :: raw_article where
  "rawB = \<lparr>r_title = Some ''B'', r_description = None, r_urlToImage = None,
            r_publishedAt = None, r_url = Some ''http://x/b'', r_sourceName = None\<rparr>"

definition rawN :: raw_article where
  "rawN = \<lparr>r_title = Some ''N'', r_description = None, r_urlToImage = None,
            r_publishedAt = None, r_url = None, r_sourceName = None\<rparr>"

text \<open>
  An environment for the examples: technology has \<open>rawA\<close> and \<open>rawN\<close>, business has
  \<open>rawA'\<close> and \<open>rawB\<close>, the call for general fails, sports has no \<^verbatim>\<open>articles\<close>.
\<close>

definition demoEnv :: env where
  "demoEnv =
     \<lparr>sha1_hex = demoHash,
      httpJSON = (\<lambda>qy. if hq_category qy = ''technology'' then Some (Some [rawA, rawN])
                       else if hq_category qy = ''business'' then Some (Some [rawA', rawB])
                       else if hq_category qy = ''general'' then None
                       else Some None),
      Date_now = (\<lambda>i. 1700000000000 + i),
      Date_getTime = (\<lambda>s. if s = ''2024-01-02T00:00:00Z'' then Some 1704153600000
                          else if s = ''2024-01-01T00:00:00Z'' then Some 1704067200000
                          else None),
      Date_toISOString = (\<lambda>t. ''2023-11-14T22:13:20.000Z''),
      Array_sort_NaN = (\<lambda>xs. xs)\<rparr>"

text \<open>
  A technology feed of three records in this order: an old one, one whose timestamp does
  not parse, a new one; the other feeds are empty. On these three the comparator yields
  \<^verbatim>\<open>NaN\<close> (read as 0) whenever the middle record is compared, which is all the engine of
  Node asks before it takes the array to be in order: it leaves the array as it is.
\<close>

definition rawOld :: raw_article where
  "rawOld = \<lparr>r_title = Some ''old'', r_description = None, r_urlToImage = None,
              r_publishedAt = Some ''2024-01-01T00:00:00Z'', r_url = Some ''http://x/old'',
              r_sourceName = None\<rparr>"

definition rawBad :: raw_article where
  "rawBad = \<lparr>r_title = Some ''bad'', r_description = None, r_urlToImage = None,
              r_publishedAt = Some ''soon'', r_url = Some ''http://x/bad'',
              r_sourceName = None\<rparr>"

definition rawNew :: raw_article where
  "rawNew = \<lparr>r_title = Some ''new'', r_description = None, r_urlToImage = None,
              r_publishedAt = Some ''2024-01-02T00:00:00Z'', r_url = Some ''http://x/new'',
              r_sourceName = None\<rparr>"

definition nanEnv :: env where
  "nanEnv =
     demoEnv\<lparr>httpJSON := (\<lambda>qy. if hq_category qy = ''technology''
                                  then Some (Some [rawOld, rawBad, rawNew]) else Some None),
             Array_sort_NaN := (\<lambda>xs. xs)\<rparr>"

text \<open>An environment whose technology feed has 25 records.\<close>

definition env25 :: env where
  "env25 = demoEnv\<lparr>httpJSON := (\<lambda>qy. Some (Some (replicate 25 rawA)))\<rparr>"

definition newsRequest :: request where
  "newsRequest = \<lparr>category = ''news'', q = [], page = 1, pageSize = 10\<rparr>"

definition techRequest :: request where
  "techRequest = \<lparr>category = ''tech'', q = [], page = 1, pageSize = 10\<rparr>"

text \<open>A catalogued article, for the examples.\<close>

definition oldArticle :: article where
  "oldArticle = \<lparr>a_id = ''x1'', a_title = Some ''Old title'', a_summary = Some ''Old summary'',
     a_cover = None, a_publishedAt = Some ''2024-01-01T00:00:00Z'', a_url = Some ''http://x/a'',
     a_source = Some ''Wire'', a_categories = Some [''tech'', ''news''],
     a_primaryCategory = Some ''tech'', a_category = None\<rparr>"

text \<open>The store after a comment request: unchanged when the request is rejected.\<close>

definition commentsAfter :: "commentsDB \<Rightarrow> error + (commentsDB \<times> comment) \<Rightarrow> commentsDB" where
  "commentsAfter db r = (case r of Inl e \<Rightarrow> db | Inr (db', c) \<Rightarrow> db')"



text \<open>A comment stored by an old version: no id, no \<^verbatim>\<open>likedBy\<close>, a plain count of 5.\<close>

definition legacyComment :: comment where
  "legacyComment = \<lparr>c_id = None, c_username = ''bob'', c_text = ''hello'',
     c_createdAt = ''2023-05-01T10:00:00.000Z'', c_likedBy = None, c_likes = Some 5\<rparr>"

text \<open>The comment store after alice and, a day later, bob have commented on article \<open>a1\<close>.\<close>

definition oneComment :: commentsDB where
  "oneComment =
     commentsAfter Map.empty
       (addComment demoHash ''2024-01-01T00:00:00.000Z'' Map.empty ''a1'' ''alice'' ''first'')"

definition twoComments :: commentsDB where
  "twoComments =
     commentsAfter oneComment
       (addComment demoHash ''2024-01-02T00:00:00.000Z'' oneComment ''a1'' ''bob'' ''second'')"

section \<open>Properties of the comment handlers\<close>

lemma trim_replicate_a: "trim (replicate n (CHR ''a'')) = replicate n (CHR ''a'')"
  by (simp add: trim_def isWhiteSpace_def dropWhile_replicate)

text \<open>
  C1. The claim: a comment text of 301 characters is rejected with ValidationError.
  The handler has no length check: posted by user \<open>alice\<close> on article \<open>a1\<close>, a text of
  301 letters is stored unchanged and returned as the new comment.
\<close>

theorem addComment_accepts_301:
  "addComment sha1 createdAt db ''a1'' ''alice'' (replicate 301 (CHR ''a'')) =
     Inr (db(''a1'' \<mapsto> (case db ''a1'' of None \<Rightarrow> [] | Some xs \<Rightarrow> xs) @
            [\<lparr>c_id = Some (sha1 (commentKey ''a1'' ''alice'' createdAt (replicate 301 (CHR ''a'')))),
              c_username = ''alice'', c_text = replicate 301 (CHR ''a''),
              c_createdAt = createdAt, c_likedBy = Some [], c_likes = Some 0\<rparr>]),
          \<lparr>c_id = Some (sha1 (commentKey ''a1'' ''alice'' createdAt (replicate 301 (CHR ''a'')))),
            c_username = ''alice'', c_text = replicate 301 (CHR ''a''),
            c_createdAt = createdAt, c_likedBy = Some [], c_likes = Some 0\<rparr>)
   \<and> length (replicate 301 (CHR ''a'')) = 301"
  by (simp add: addComment_def truthy_def trim_replicate_a Let_def)

text \<open>The boundary itself: a text of exactly 300 letters is accepted.\<close>

lemma addComment_accepts_300:
  "addComment sha1 createdAt db ''a1'' ''alice'' (replicate 300 (CHR ''a'')) =
     Inr (db(''a1'' \<mapsto> (case db ''a1'' of None \<Rightarrow> [] | Some xs \<Rightarrow> xs) @
            [\<lparr>c_id = Some (sha1 (commentKey ''a1'' ''alice'' createdAt (replicate 300 (CHR ''a'')))),
              c_username = ''alice'', c_text = replicate 300 (CHR ''a''),
              c_createdAt = createdAt, c_likedBy = Some [], c_likes = Some 0\<rparr>]),
          \<lparr>c_id = Some (sha1 (commentKey ''a1'' ''alice'' createdAt (replicate 300 (CHR ''a'')))),
            c_username = ''alice'', c_text = replicate 300 (CHR ''a''),
            c_createdAt = createdAt, c_likedBy = Some [], c_likes = Some 0\<rparr>)"
  by (simp add: addComment_def truthy_def trim_replicate_a Let_def)

text \<open>
  C2. The claim: a stored comment without id and liked-by set is upgraded on the first
  listing, and the like count of its legacy plain-count field stays the baseline of the
  like count reported. The upgrade assigns the id and the empty \<^verbatim>\<open>likedBy\<close> first; the
  count is then taken from the length of \<^verbatim>\<open>likedBy\<close>, so the fallback to the legacy
  field is never reached: the legacy comment with 5 likes is reported with 0 likes, on the
  first listing and on the next.
\<close>

theorem listComments_legacy_count_lost:
  "fst (listComments sha1 [''a1'' \<mapsto> [legacyComment]] ''a1'' viewer) =
     [\<lparr>v_id = Some (sha1 ''a1|bob|2023-05-01T10:00:00.000Z|hello''), v_username = ''bob'',
       v_text = ''hello'', v_createdAt = ''2023-05-01T10:00:00.000Z'', v_likedBy = Some [],
       v_likes = 0, v_liked = False\<rparr>]
   \<and> c_likes legacyComment = Some 5
   \<and> map v_likes (fst (listComments sha1
         (fst (snd (listComments sha1 [''a1'' \<mapsto> [legacyComment]] ''a1'' viewer))) ''a1'' viewer)) = [0]"
  by (simp add: listComments_def upgradeComment_def commentView_def legacyComment_def
        truthy_opt_def commentKey_def Let_def)

subsection \<open>The order of a listing\<close>

lemma upgrade_added:
  "fst (upgradeComment sha1 aid
     \<lparr>c_id = Some (sha1 (commentKey aid u t x)), c_username = u, c_text = x,
      c_createdAt = t, c_likedBy = Some [], c_likes = Some 0\<rparr>) =
     \<lparr>c_id = Some (sha1 (commentKey aid u t x)), c_username = u, c_text = x,
      c_createdAt = t, c_likedBy = Some [], c_likes = Some 0\<rparr>"
  by (simp add: upgradeComment_def)

lemma listComments_views:
  "fst (listComments sha1 db aid viewer) =
     map (\<lambda>it. commentView viewer (fst (upgradeComment sha1 aid it)))
       (case db aid of None \<Rightarrow> [] | Some xs \<Rightarrow> xs)"
  by (simp add: listComments_def Let_def comp_def)

lemma commentView_createdAt:
  "v_createdAt (commentView viewer (fst (upgradeComment sha1 aid it))) = c_createdAt it"
  by (simp add: commentView_def upgradeComment_def Let_def)

lemma trim_first: "trim ''first'' = ''first''"
  by (simp add: trim_def isWhiteSpace_def)

lemma trim_second: "trim ''second'' = ''second''"
  by (simp add: trim_def isWhiteSpace_def)

lemma oneComment_a1:
  "oneComment = [''a1'' \<mapsto>
     [\<lparr>c_id = Some (demoHash (commentKey ''a1'' ''alice'' ''2024-01-01T00:00:00.000Z'' ''first'')),
       c_username = ''alice'', c_text = ''first'', c_createdAt = ''2024-01-01T00:00:00.000Z'',
       c_likedBy = Some [], c_likes = Some 0\<rparr>]]"
  by (simp add: oneComment_def commentsAfter_def addComment_def truthy_def trim_first Let_def)

lemma second_post:
  "addComment demoHash ''2024-01-02T00:00:00.000Z'' oneComment ''a1'' ''bob'' ''second'' =
     Inr (twoComments,
       \<lparr>c_id = Some (demoHash (commentKey ''a1'' ''bob'' ''2024-01-02T00:00:00.000Z'' ''second'')),
        c_username = ''bob'', c_text = ''second'', c_createdAt = ''2024-01-02T00:00:00.000Z'',
        c_likedBy = Some [], c_likes = Some 0\<rparr>)"
  by (simp add: twoComments_def commentsAfter_def addComment_def truthy_def trim_second Let_def)

lemma twoComments_a1:
  "twoComments ''a1'' = Some
     [\<lparr>c_id = Some (demoHash (commentKey ''a1'' ''alice'' ''2024-01-01T00:00:00.000Z'' ''first'')),
       c_username = ''alice'', c_text = ''first'', c_createdAt = ''2024-01-01T00:00:00.000Z'',
       c_likedBy = Some [], c_likes = Some 0\<rparr>,
      \<lparr>c_id = Some (demoHash (commentKey ''a1'' ''bob'' ''2024-01-02T00:00:00.000Z'' ''second'')),
       c_username = ''bob'', c_text = ''second'', c_createdAt = ''2024-01-02T00:00:00.000Z'',
       c_likedBy = Some [], c_likes = Some 0\<rparr>]"
  by (simp add: twoComments_def commentsAfter_def addComment_def truthy_def trim_second
        oneComment_a1 Let_def)

lemma iso_less: "(''2024-01-01T00:00:00.000Z'' :: string) < ''2024-01-02T00:00:00.000Z''"
  by code_simp

text \<open>
  C4. The claim: the listing is newest first, every comment before all comments created
  earlier. The handler lists the stored array in its order, and \<open>addComment\<close> appends to
  it: after alice's comment of 1 January and bob's of 2 January the listing has alice's,
  the older one, first. (The browser puts a comment just posted at the top of the list it
  shows, so the same comments appear in the opposite order after the next listing.)
\<close>

theorem listComments_not_newest_first:
  "map v_text (fst (listComments demoHash twoComments ''a1'' None)) = [''first'', ''second'']
   \<and> map v_createdAt (fst (listComments demoHash twoComments ''a1'' None)) =
       [''2024-01-01T00:00:00.000Z'', ''2024-01-02T00:00:00.000Z'']
   \<and> \<not> newestFirst (fst (listComments demoHash twoComments ''a1'' None))"
  using iso_less
  by (simp add: listComments_views twoComments_a1 commentView_def upgradeComment_def
       newestFirst_def truthy_opt_def truthy_def demoHash_def Let_def)

text \<open>
  In general the listing is in the order of posting, oldest first: a comment that
  \<open>addComment\<close> accepts is listed after all the comments the article had, and the
  creation times of a listing are those of the stored array in its order.
\<close>

theorem listComments_posting_order:
  assumes "addComment sha1 createdAt db aid username text = Inr (db', c)"
  shows "fst (listComments sha1 db' aid viewer) =
           fst (listComments sha1 db aid viewer) @ [commentView viewer c]
         \<and> map v_createdAt (fst (listComments sha1 db aid viewer)) =
           map c_createdAt (case db aid of None \<Rightarrow> [] | Some xs \<Rightarrow> xs)"
proof -
  from assms have db': "db' = db(aid \<mapsto> (case db aid of None \<Rightarrow> [] | Some xs \<Rightarrow> xs) @ [c])"
    and c: "c = \<lparr>c_id = Some (sha1 (commentKey aid username createdAt (trim text))),
                 c_username = username, c_text = trim text, c_createdAt = createdAt,
                 c_likedBy = Some [], c_likes = Some 0\<rparr>"
    by (auto simp: addComment_def Let_def split: if_splits)
  have "fst (upgradeComment sha1 aid c) = c"
    unfolding c by (rule upgrade_added)
  then have "fst (listComments sha1 db' aid viewer) =
           fst (listComments sha1 db aid viewer) @ [commentView viewer c]"
    by (simp add: listComments_views db')
  moreover have "map v_createdAt (fst (listComments sha1 db aid viewer)) =
           map c_createdAt (case db aid of None \<Rightarrow> [] | Some xs \<Rightarrow> xs)"
    by (simp add: listComments_views comp_def commentView_createdAt)
  ultimately show ?thesis by simp
qed

theorem listComments_posting_order_witness:
  "addComment demoHash ''2024-01-02T00:00:00.000Z'' oneComment ''a1'' ''bob'' ''second'' =
     Inr (twoComments,
       \<lparr>c_id = Some (demoHash (commentKey ''a1'' ''bob'' ''2024-01-02T00:00:00.000Z'' ''second'')),
        c_username = ''bob'', c_text = ''second'', c_createdAt = ''2024-01-02T00:00:00.000Z'',
        c_likedBy = Some [], c_likes = Some 0\<rparr>)
   \<and> fst (listComments demoHash twoComments ''a1'' None) =
       fst (listComments demoHash oneComment ''a1'' None) @
       [commentView None
         \<lparr>c_id = Some (demoHash (commentKey ''a1'' ''bob'' ''2024-01-02T00:00:00.000Z'' ''second'')),
          c_username = ''bob'', c_text = ''second'', c_createdAt = ''2024-01-02T00:00:00.000Z'',
          c_likedBy = Some [], c_likes = Some 0\<rparr>]"
  using listComments_posting_order [OF second_post, of None] second_post by simp

section \<open>Properties of the like handler\<close>




















text \<open>For the name of an inherited member the request fails and changes nothing.\<close>

lemma toggle_constructor:
  "toggleArticleLike Map.empty ''constructor'' ''alice'' = Inl ServerError"
  by (simp add: toggleArticleLike_def truthy_def objectPrototypeKeys_def)




section \<open>Properties of the catalogue and the list endpoint\<close>

subsection \<open>The items and the catalogue after the writes\<close>

lemma set_Set_new: "set (Set_new xs) = set xs"
  by (induction xs rule: Set_new.induct) auto

lemma distinct_Set_new: "distinct (Set_new xs)"
  by (induction xs rule: Set_new.induct) (auto simp: set_Set_new)

lemma upsertAll_Cons_fst:
  "fst (upsertAll e req likesDB idx (n # ns) store) =
     newsItem req likesDB (newsItemId e req idx n) n #
     fst (upsertAll e req likesDB (Suc idx) ns (upsert store (newsItemId e req idx n) n))"
  by (simp add: Let_def split: prod.splits)

lemma upsertAll_Cons_snd:
  "snd (upsertAll e req likesDB idx (n # ns) store) =
     snd (upsertAll e req likesDB (Suc idx) ns (upsert store (newsItemId e req idx n) n))"
  by (simp add: Let_def split: prod.splits)

lemma upsertAll_items:
  "fst (upsertAll e req likesDB idx ns store) =
     map (\<lambda>(i, n). newsItem req likesDB (newsItemId e req i n) n) (zip [idx..<idx + length ns] ns)"
proof (induction ns arbitrary: idx store)
  case Nil
  then show ?case by simp
next
  case (Cons n ns)
  have "[idx..<idx + length (n # ns)] = idx # [Suc idx..<Suc idx + length ns]"
    by (simp add: upt_conv_Cons del: upt_Suc)
  then show ?case
    using Cons.IH[of "Suc idx" "upsert store (newsItemId e req idx n) n"]
    by (simp only: upsertAll_Cons_fst zip_Cons_Cons list.map prod.case)
qed

lemma memberOf_upsert_same:
  "memberOf (upsert store aid n) aid c \<longleftrightarrow>
     memberOf store aid c \<or> c = frontendCat n \<or> c = ''news''"
  by (auto simp: memberOf_def upsert_def upsertRecord_def existingField_def set_Set_new Let_def
        split: option.splits)

lemma memberOf_upsert_other:
  "aid' \<noteq> aid \<Longrightarrow> memberOf (upsert store aid n) aid' c = memberOf store aid' c"
  by (simp add: memberOf_def upsert_def)

lemma memberOf_upsert_mono:
  "memberOf store aid' c \<Longrightarrow> memberOf (upsert store aid n) aid' c"
  by (cases "aid' = aid") (simp_all add: memberOf_upsert_same memberOf_upsert_other)

lemma memberOf_upsertAll_mono:
  "memberOf store aid c \<Longrightarrow> memberOf (snd (upsertAll e req likesDB idx ns store)) aid c"
proof (induction ns arbitrary: idx store)
  case Nil
  then show ?case by simp
next
  case (Cons n ns)
  from Cons.prems have "memberOf (upsert store (newsItemId e req idx n) n) aid c"
    by (rule memberOf_upsert_mono)
  from Cons.IH[OF this, of "Suc idx"] show ?case
    by (simp only: upsertAll_Cons_snd)
qed

lemma upsertAll_member:
  "i < length ns \<Longrightarrow>
   memberOf (snd (upsertAll e req likesDB idx ns store)) (newsItemId e req (idx + i) (ns ! i))
     (frontendCat (ns ! i))
   \<and> memberOf (snd (upsertAll e req likesDB idx ns store)) (newsItemId e req (idx + i) (ns ! i))
     ''news''"
proof (induction ns arbitrary: idx store i)
  case Nil
  then show ?case by simp
next
  case (Cons n ns)
  let ?s = "upsert store (newsItemId e req idx n) n"
  have step: "snd (upsertAll e req likesDB idx (n # ns) store) =
              snd (upsertAll e req likesDB (Suc idx) ns ?s)"
    by (rule upsertAll_Cons_snd)
  show ?case
  proof (cases i)
    case 0
    have "memberOf ?s (newsItemId e req idx n) (frontendCat n)"
      and "memberOf ?s (newsItemId e req idx n) ''news''"
      by (simp_all add: memberOf_upsert_same)
    then show ?thesis
      unfolding step 0 by (simp add: memberOf_upsertAll_mono)
  next
    case (Suc j)
    with Cons.prems have "j < length ns" by simp
    from Cons.IH[OF this, of "Suc idx" ?s] show ?thesis
      unfolding step Suc by simp
  qed
qed

lemma upsertAll_untouched:
  "(\<forall>i < length ns. newsItemId e req (idx + i) (ns ! i) \<noteq> aid) \<Longrightarrow>
   snd (upsertAll e req likesDB idx ns store) aid = store aid"
proof (induction ns arbitrary: idx store)
  case Nil
  then show ?case by simp
next
  case (Cons n ns)
  let ?s = "upsert store (newsItemId e req idx n) n"
  from Cons.prems have a: "newsItemId e req idx n \<noteq> aid" by force
  from Cons.prems have "\<forall>i<length ns. newsItemId e req (Suc idx + i) (ns ! i) \<noteq> aid"
    by force
  then have "snd (upsertAll e req likesDB (Suc idx) ns ?s) aid = ?s aid"
    by (rule Cons.IH)
  also have "?s aid = store aid"
    using a by (simp add: upsert_def)
  finally show ?case
    unfolding upsertAll_Cons_snd .
qed

subsection \<open>Sorting and de-duplication\<close>

lemma dedup_elem:
  "n \<in> set (dedupByUrl seen xs) \<Longrightarrow> truthy_opt (n_url n) \<and> the (n_url n) \<notin> seen \<and> n \<in> set xs"
  by (induction xs arbitrary: seen) (auto split: if_splits)

lemma truthy_opt_Some: "truthy_opt v \<Longrightarrow> v = Some (the v)"
  by (cases v) (simp_all add: truthy_opt_def)

lemma dedup_distinct: "distinct (map n_url (dedupByUrl seen xs))"
proof (induction xs arbitrary: seen)
  case Nil
  then show ?case by simp
next
  case (Cons a as)
  show ?case
  proof (cases "truthy_opt (n_url a) \<and> the (n_url a) \<notin> seen")
    case False
    then show ?thesis using Cons.IH by auto
  next
    case True
    have "n_url a \<notin> n_url ` set (dedupByUrl (insert (the (n_url a)) seen) as)"
    proof
      assume "n_url a \<in> n_url ` set (dedupByUrl (insert (the (n_url a)) seen) as)"
      then obtain n where n: "n \<in> set (dedupByUrl (insert (the (n_url a)) seen) as)"
        and eq: "n_url a = n_url n" by auto
      from dedup_elem[OF n] have "the (n_url n) \<noteq> the (n_url a)" by simp
      with eq show False by simp
    qed
    with True Cons.IH show ?thesis by simp
  qed
qed

lemma dedup_sorted_wrt: "sorted_wrt P xs \<Longrightarrow> sorted_wrt P (dedupByUrl seen xs)"
proof (induction xs arbitrary: seen)
  case Nil
  then show ?case by simp
next
  case (Cons a as)
  then show ?case by (auto dest: dedup_elem)
qed

lemma not_truthy_neq: "\<not> truthy_opt v \<Longrightarrow> u \<noteq> [] \<Longrightarrow> v \<noteq> Some u"
  by (auto simp: truthy_opt_def truthy_def)

lemma dedup_find:
  "u \<noteq> [] \<Longrightarrow> u \<notin> seen \<Longrightarrow>
   find (\<lambda>n. n_url n = Some u) (dedupByUrl seen xs) = find (\<lambda>n. n_url n = Some u) xs"
proof (induction xs arbitrary: seen)
  case Nil
  then show ?case by simp
next
  case (Cons a as)
  show ?case
  proof (cases "n_url a = Some u")
    case True
    with Cons.prems show ?thesis by (simp add: truthy_opt_def truthy_def)
  next
    case False
    then have "u \<notin> insert (the (n_url a)) seen \<or> \<not> truthy_opt (n_url a)"
      using Cons.prems(2) by (cases "n_url a") (auto simp: truthy_opt_def)
    with False Cons.IH[OF Cons.prems(1)] Cons.prems(2) show ?thesis
      by auto
  qed
qed

lemma dedup_count:
  "u \<noteq> [] \<Longrightarrow>
   length (filter (\<lambda>n. n_url n = Some u) (dedupByUrl seen xs)) =
     (if u \<notin> seen \<and> (\<exists>n \<in> set xs. n_url n = Some u) then 1 else 0)"
proof (induction xs arbitrary: seen)
  case Nil
  then show ?case by simp
next
  case (Cons a as)
  show ?case
  proof (cases "n_url a = Some u")
    case True
    with Cons.prems Cons.IH[OF Cons.prems, of "insert u seen"] Cons.IH[OF Cons.prems, of seen]
    show ?thesis by (auto simp: truthy_opt_def truthy_def)
  next
    case False
    show ?thesis
    proof (cases "truthy_opt (n_url a) \<and> the (n_url a) \<notin> seen")
      case k: True
      then have "u \<noteq> the (n_url a)" using False by (cases "n_url a") (auto simp: truthy_opt_def)
      with False k Cons.IH[OF Cons.prems, of "insert (the (n_url a)) seen"]
      show ?thesis by auto
    next
      case k: False
      with False Cons.IH[OF Cons.prems, of seen] show ?thesis by auto
    qed
  qed
qed

lemma sortByDate_valid:
  "list_all (\<lambda>a. publishedTime e a \<noteq> None) xs \<Longrightarrow>
   sortByDate e xs = sort_key (\<lambda>a. - the (publishedTime e a)) xs"
  by (simp add: sortByDate_def)

lemma sortByDate_set:
  "list_all (\<lambda>a. publishedTime e a \<noteq> None) xs \<Longrightarrow> set (sortByDate e xs) = set xs"
  by (simp add: sortByDate_valid)

lemma sortByDate_sorted:
  assumes "list_all (\<lambda>a. publishedTime e a \<noteq> None) xs"
  shows "sorted_wrt (\<lambda>a b. the (publishedTime e b) \<le> the (publishedTime e a)) (sortByDate e xs)"
proof -
  have "sorted (map (\<lambda>a. - the (publishedTime e a)) (sort_key (\<lambda>a. - the (publishedTime e a)) xs))"
    by (rule sorted_sort_key)
  then show ?thesis
    by (simp add: sortByDate_valid[OF assms] sorted_map)
qed

lemma sortByDate_stable:
  assumes "list_all (\<lambda>a. publishedTime e a \<noteq> None) xs"
  shows "filter (\<lambda>n. publishedTime e n = Some t) (sortByDate e xs) =
         filter (\<lambda>n. publishedTime e n = Some t) xs"
proof -
  have v: "(publishedTime e n = Some t) = (- the (publishedTime e n) = - t)" if "n \<in> set xs" for n
    using assms that by (auto simp: list_all_iff)
  have "filter (\<lambda>n. publishedTime e n = Some t) (sortByDate e xs) =
        filter (\<lambda>n. - the (publishedTime e n) = - t) (sortByDate e xs)"
    by (rule filter_cong) (simp_all add: v sortByDate_set[OF assms])
  also have "\<dots> = filter (\<lambda>n. - the (publishedTime e n) = - t) xs"
    unfolding sortByDate_valid[OF assms] by (rule sort_key_stable)
  also have "\<dots> = filter (\<lambda>n. publishedTime e n = Some t) xs"
    by (rule filter_cong) (simp_all add: v)
  finally show ?thesis .
qed

lemma upsertAll_urls:
  "map i_url (fst (upsertAll e req likesDB idx ns store)) = map n_url ns"
  by (rule nth_equalityI) (simp_all add: upsertAll_items newsItem_def)

lemma upsertAll_titles:
  "map i_title (fst (upsertAll e req likesDB idx ns store)) = map n_title ns"
  by (rule nth_equalityI) (simp_all add: upsertAll_items newsItem_def)

lemma upsertAll_times:
  "map (itemTime e) (fst (upsertAll e' req likesDB idx ns store)) = map (publishedTime e) ns"
  by (rule nth_equalityI) (simp_all add: upsertAll_items newsItem_def itemTime_def publishedTime_def)

lemma upsertAll_publishedAt:
  "map i_publishedAt (fst (upsertAll e req likesDB idx ns store)) = map n_publishedAt ns"
  by (rule nth_equalityI) (simp_all add: upsertAll_items newsItem_def)

lemma listing_news:
  "category req = ''news'' \<Longrightarrow>
   allArticles e req = Some (dedupByUrl {} (sortByDate e (fanOut e (q req)))) \<and>
   listing e likesDB store req =
     Some (fst (upsertAll e req likesDB 0 (dedupByUrl {} (sortByDate e (fanOut e (q req)))) store)) \<and>
   snd (listArticles e likesDB store req) =
     snd (upsertAll e req likesDB 0 (dedupByUrl {} (sortByDate e (fanOut e (q req)))) store)"
  by (simp add: allArticles_def listing_def listArticles_def filteredItems_def split: prod.splits)

subsection \<open>Listings of one category; records without URL\<close>

lemma inCategory_memberOf: "inCategory store cat it = memberOf store (i_id it) cat"
  by (simp add: inCategory_def memberOf_def)

lemma upsertAll_nth:
  "i < length ns \<Longrightarrow>
   fst (upsertAll e req likesDB idx ns store) ! i =
     newsItem req likesDB (newsItemId e req (idx + i) (ns ! i)) (ns ! i)"
  by (simp add: upsertAll_items)

lemma upsertAll_length: "length (fst (upsertAll e req likesDB idx ns store)) = length ns"
  by (simp add: upsertAll_items)

lemma filtered_all:
  assumes "\<forall>n \<in> set ns. frontendCat n = category req"
  shows "filteredItems req (snd (upsertAll e req likesDB 0 ns store))
           (fst (upsertAll e req likesDB 0 ns store)) = fst (upsertAll e req likesDB 0 ns store)"
proof -
  have "inCategory (snd (upsertAll e req likesDB 0 ns store)) (category req) it"
    if "it \<in> set (fst (upsertAll e req likesDB 0 ns store))" for it
  proof -
    from that obtain i where i: "i < length ns"
      and it: "it = fst (upsertAll e req likesDB 0 ns store) ! i"
      by (auto simp: in_set_conv_nth upsertAll_length)
    have "i_id it = newsItemId e req i (ns ! i)"
      by (simp add: it upsertAll_nth[OF i] newsItem_def)
    moreover from i assms have "frontendCat (ns ! i) = category req" by simp
    ultimately show ?thesis
      using upsertAll_member[OF i, of e req likesDB 0 store]
      by (simp add: inCategory_memberOf)
  qed
  then show ?thesis by (simp add: filteredItems_def)
qed

lemma listing_Some:
  "allArticles e req = Some all \<Longrightarrow>
   listing e likesDB store req =
     Some (filteredItems req (snd (upsertAll e req likesDB 0 all store))
            (fst (upsertAll e req likesDB 0 all store)))"
  by (simp add: listing_def case_prod_unfold)

lemma listArticles_Some:
  "allArticles e req = Some all \<Longrightarrow>
   listArticles e likesDB store req =
     (paginate req (filteredItems req (snd (upsertAll e req likesDB 0 all store))
                      (fst (upsertAll e req likesDB 0 all store))),
      snd (upsertAll e req likesDB 0 all store))"
  by (simp add: listArticles_def case_prod_unfold)

lemma frontendCat_known:
  assumes "category req \<in> {''tech'', ''business'', ''world'', ''sports''}"
  shows "frontendCat (tagArticle (case categoryMap (category req) of None \<Rightarrow> ''general'' | Some c \<Rightarrow> c) a)
           = category req"
  using assms by (auto simp: frontendCat_def tagArticle_def categoryMap_def reverseMap_def)

lemma listing_single:
  assumes known: "category req \<in> {''tech'', ''business'', ''world'', ''sports''}"
    and ok: "httpJSON e \<lparr>hq_category = (case categoryMap (category req) of None \<Rightarrow> ''general'' | Some c \<Rightarrow> c),
                         hq_q = Some (q req), hq_pageSize = ''50''\<rparr> = Some data"
  shows "listing e likesDB store req =
           Some (fst (upsertAll e req likesDB 0
             (map (tagArticle (case categoryMap (category req) of None \<Rightarrow> ''general'' | Some c \<Rightarrow> c))
                (case data of None \<Rightarrow> [] | Some as \<Rightarrow> as)) store))"
proof -
  let ?api = "case categoryMap (category req) of None \<Rightarrow> ''general'' | Some c \<Rightarrow> c"
  let ?ns = "map (tagArticle ?api) (case data of None \<Rightarrow> [] | Some as \<Rightarrow> as)"
  from known have nn: "category req \<noteq> ''news''" by auto
  have all: "allArticles e req = Some ?ns"
    using nn ok by (simp add: allArticles_def Let_def)
  have "\<forall>n \<in> set ?ns. frontendCat n = category req"
    using frontendCat_known[OF known] by auto
  from filtered_all[OF this, of e likesDB store] show ?thesis
    by (simp add: listing_Some[OF all])
qed

lemma set_js_slice: "set (js_slice xs a b) \<subseteq> set xs"
proof -
  have "set (take n (drop k xs)) \<subseteq> set xs" for n k
    using set_take_subset[of n "drop k xs"] set_drop_subset[of k xs] by blast
  then show ?thesis by (simp add: js_slice_def Let_def)
qed

lemma listArticles_listing:
  "listing e likesDB store req = Some L \<Longrightarrow> fst (listArticles e likesDB store req) = paginate req L"
  by (auto simp: listing_def listArticles_def split: option.splits prod.splits)

lemma makeId_local:
  "\<not> truthy_opt url \<Longrightarrow> makeIdFromUrl e i url = ''local_'' @ show_nat (Date_now e i)"
  by (simp add: makeIdFromUrl_def)

lemma newsItemId_local:
  "\<not> truthy_opt (n_url n) \<Longrightarrow> newsItemId e req i n = ''local_'' @ show_nat (Date_now e i)"
  by (simp add: newsItemId_def makeId_local truthy_def Let_def)

text \<open>
  C10. In an aggregate (\<open>news\<close>) listing only records with a non-empty URL survive the
  de-duplication filter, so only these are catalogued and no item of the listing or of
  the page sent lacks a URL. In a listing of one of the four categories no such filter
  runs: the listing has one item per upstream record, and a record without URL is listed
  (and catalogued under the requested category) with the synthetic id
  \<^verbatim>\<open>local_<clock reading>\<close>.
\<close>

theorem urlless_records:
  "(category req = ''news'' \<longrightarrow>
      (\<exists>all L. allArticles e req = Some all \<and> (\<forall>n \<in> set all. truthy_opt (n_url n))
         \<and> snd (listArticles e likesDB store req) = snd (upsertAll e req likesDB 0 all store)
         \<and> listing e likesDB store req = Some L \<and> map i_url L = map n_url all
         \<and> (\<forall>it \<in> set L. truthy_opt (i_url it))
         \<and> (\<forall>it \<in> set (resp_items (fst (listArticles e likesDB store req))). truthy_opt (i_url it))))
   \<and> (category req \<in> {''tech'', ''business'', ''world'', ''sports''} \<and>
      httpJSON e \<lparr>hq_category = (case categoryMap (category req) of None \<Rightarrow> ''general'' | Some c \<Rightarrow> c),
                  hq_q = Some (q req), hq_pageSize = ''50''\<rparr> = Some (Some raws) \<longrightarrow>
      (\<exists>L. listing e likesDB store req = Some L \<and> length L = length raws
         \<and> (\<forall>i < length raws. \<not> truthy_opt (r_url (raws ! i)) \<longrightarrow>
               i_id (L ! i) = ''local_'' @ show_nat (Date_now e i)
               \<and> i_url (L ! i) = r_url (raws ! i) \<and> i_title (L ! i) = r_title (raws ! i)
               \<and> memberOf (snd (listArticles e likesDB store req)) (i_id (L ! i)) (category req))))"
proof (intro conjI impI)
  assume news: "category req = ''news''"
  let ?all = "dedupByUrl {} (sortByDate e (fanOut e (q req)))"
  let ?L = "fst (upsertAll e req likesDB 0 ?all store)"
  note N = listing_news[OF news, of e likesDB store]
  have t: "\<forall>n \<in> set ?all. truthy_opt (n_url n)"
    by (auto dest: dedup_elem)
  have u: "map i_url ?L = map n_url ?all" by (rule upsertAll_urls)
  have tl: "\<forall>it \<in> set ?L. truthy_opt (i_url it)"
  proof
    fix it assume "it \<in> set ?L"
    then have "i_url it \<in> set (map i_url ?L)" by simp
    then have "i_url it \<in> n_url ` set ?all" unfolding u by simp
    with t show "truthy_opt (i_url it)" by auto
  qed
  have "set (resp_items (fst (listArticles e likesDB store req))) \<subseteq> set ?L"
    using N set_js_slice by (simp add: listArticles_listing paginate_def Let_def)
  with tl have "\<forall>it \<in> set (resp_items (fst (listArticles e likesDB store req))). truthy_opt (i_url it)"
    by blast
  with N t u tl show "\<exists>all L. allArticles e req = Some all \<and> (\<forall>n \<in> set all. truthy_opt (n_url n))
         \<and> snd (listArticles e likesDB store req) = snd (upsertAll e req likesDB 0 all store)
         \<and> listing e likesDB store req = Some L \<and> map i_url L = map n_url all
         \<and> (\<forall>it \<in> set L. truthy_opt (i_url it))
         \<and> (\<forall>it \<in> set (resp_items (fst (listArticles e likesDB store req))). truthy_opt (i_url it))"
    by blast
next
  let ?api = "case categoryMap (category req) of None \<Rightarrow> ''general'' | Some c \<Rightarrow> c"
  assume a: "category req \<in> {''tech'', ''business'', ''world'', ''sports''} \<and>
      httpJSON e \<lparr>hq_category = ?api, hq_q = Some (q req), hq_pageSize = ''50''\<rparr> = Some (Some raws)"
  then have known: "category req \<in> {''tech'', ''business'', ''world'', ''sports''}"
    and ok: "httpJSON e \<lparr>hq_category = ?api, hq_q = Some (q req), hq_pageSize = ''50''\<rparr> = Some (Some raws)"
    by simp_all
  let ?ns = "map (tagArticle ?api) raws"
  let ?L = "fst (upsertAll e req likesDB 0 ?ns store)"
  from listing_single[OF known ok, of likesDB store]
  have L: "listing e likesDB store req = Some ?L" by simp
  have all: "allArticles e req = Some ?ns"
    using known ok by (auto simp: allArticles_def Let_def)
  have st: "snd (listArticles e likesDB store req) = snd (upsertAll e req likesDB 0 ?ns store)"
    by (simp add: listArticles_Some[OF all])
  have len: "length ?L = length raws" by (simp add: upsertAll_length)
  have each: "i_id (?L ! i) = ''local_'' @ show_nat (Date_now e i)
               \<and> i_url (?L ! i) = r_url (raws ! i) \<and> i_title (?L ! i) = r_title (raws ! i)
               \<and> memberOf (snd (listArticles e likesDB store req)) (i_id (?L ! i)) (category req)"
    if i: "i < length raws" and nu: "\<not> truthy_opt (r_url (raws ! i))" for i
  proof -
    from i have i': "i < length ?ns" by simp
    have nth: "?L ! i = newsItem req likesDB (newsItemId e req i (?ns ! i)) (?ns ! i)"
      using upsertAll_nth[OF i', of e req likesDB 0 store] by simp
    have url: "n_url (?ns ! i) = r_url (raws ! i)" and title: "n_title (?ns ! i) = r_title (raws ! i)"
      using i by (simp_all add: tagArticle_def)
    have idl: "newsItemId e req i (?ns ! i) = ''local_'' @ show_nat (Date_now e i)"
      using nu by (simp add: newsItemId_local url)
    have fc: "frontendCat (?ns ! i) = category req"
      using i frontendCat_known[OF known] by simp
    from upsertAll_member[OF i', of e req likesDB 0 store]
    have "memberOf (snd (upsertAll e req likesDB 0 ?ns store)) (newsItemId e req i (?ns ! i)) (category req)"
      by (simp add: fc)
    then show ?thesis
      by (simp add: nth newsItem_def idl url title st)
  qed
  from L len each show "\<exists>L. listing e likesDB store req = Some L \<and> length L = length raws
         \<and> (\<forall>i < length raws. \<not> truthy_opt (r_url (raws ! i)) \<longrightarrow>
               i_id (L ! i) = ''local_'' @ show_nat (Date_now e i)
               \<and> i_url (L ! i) = r_url (raws ! i) \<and> i_title (L ! i) = r_title (raws ! i)
               \<and> memberOf (snd (listArticles e likesDB store req)) (i_id (L ! i)) (category req))"
    by blast
qed

subsection \<open>Pagination\<close>

lemma js_slice_range:
  assumes "0 \<le> start" and "0 \<le> n"
  shows "js_slice xs start (start + n) = take (nat n) (drop (nat start) xs)"
proof (cases "start \<le> int (length xs)")
  case True
  with assms show ?thesis
    by (auto simp: js_slice_def Let_def min_def nat_diff_distrib' nat_add_distrib)
next
  case False
  with assms show ?thesis
    by (simp add: js_slice_def Let_def min_def)
qed

lemma js_slice_beyond:
  assumes "int (length xs) \<le> start"
  shows "js_slice xs start end' = []"
  using assms by (simp add: js_slice_def Let_def min_def)

text \<open>
  C9. The page sent is the slice \<open>[(page - 1) * pageSize, (page - 1) * pageSize + pageSize)\<close>
  of the full filtered set \<open>L\<close>; \<open>totalResults\<close> is the size of \<open>L\<close> whatever the page; a
  page that starts at or beyond the end is empty; and with 25 items and page size 10,
  page 1 is the first ten items and page 3 the last five.
\<close>

theorem listArticles_pagination:
  assumes "listing e likesDB store req = Some L"
  shows "totalResults (fst (listArticles e likesDB store req)) = length L
    \<and> resp_items (fst (listArticles e likesDB store req)) =
        js_slice L ((page req - 1) * pageSize req) ((page req - 1) * pageSize req + pageSize req)
    \<and> (1 \<le> page req \<and> 0 \<le> pageSize req \<longrightarrow>
         resp_items (fst (listArticles e likesDB store req)) =
           take (nat (pageSize req)) (drop (nat ((page req - 1) * pageSize req)) L))
    \<and> (int (length L) \<le> (page req - 1) * pageSize req \<longrightarrow>
         resp_items (fst (listArticles e likesDB store req)) = [])
    \<and> (length L = 25 \<and> pageSize req = 10 \<and> page req = 1 \<longrightarrow>
         fst (listArticles e likesDB store req) = \<lparr>resp_items = take 10 L, totalResults = 25\<rparr>)
    \<and> (length L = 25 \<and> pageSize req = 10 \<and> page req = 3 \<longrightarrow>
         fst (listArticles e likesDB store req) = \<lparr>resp_items = drop 20 L, totalResults = 25\<rparr>
         \<and> length (resp_items (fst (listArticles e likesDB store req))) = 5)"
proof -
  note P = listArticles_listing[OF assms]
  have a: "totalResults (fst (listArticles e likesDB store req)) = length L"
    by (simp add: P paginate_def Let_def)
  have b: "resp_items (fst (listArticles e likesDB store req)) =
        js_slice L ((page req - 1) * pageSize req) ((page req - 1) * pageSize req + pageSize req)"
    by (simp add: P paginate_def Let_def)
  have c: "resp_items (fst (listArticles e likesDB store req)) =
           take (nat (pageSize req)) (drop (nat ((page req - 1) * pageSize req)) L)"
    if "1 \<le> page req \<and> 0 \<le> pageSize req"
    unfolding b using that by (intro js_slice_range) simp_all
  have d: "resp_items (fst (listArticles e likesDB store req)) = []"
    if "int (length L) \<le> (page req - 1) * pageSize req"
    unfolding b using that by (rule js_slice_beyond)
  have e1: "fst (listArticles e likesDB store req) = \<lparr>resp_items = take 10 L, totalResults = 25\<rparr>"
    if "length L = 25 \<and> pageSize req = 10 \<and> page req = 1"
    using that c a by (cases "fst (listArticles e likesDB store req)") simp
  have e3: "fst (listArticles e likesDB store req) = \<lparr>resp_items = drop 20 L, totalResults = 25\<rparr>
         \<and> length (resp_items (fst (listArticles e likesDB store req))) = 5"
    if "length L = 25 \<and> pageSize req = 10 \<and> page req = 3"
    using that c a by (cases "fst (listArticles e likesDB store req)") simp
  from a b c d e1 e3 show ?thesis by blast
qed

subsection \<open>The aggregate listing\<close>

lemma dedup_subseq: "subseq (dedupByUrl seen xs) xs"
  by (induction xs arbitrary: seen) auto

lemma timeSorted_items:
  assumes t: "map (itemTime e) L = map (publishedTime e) ns"
    and v: "\<forall>n \<in> set ns. publishedTime e n \<noteq> None"
    and s: "sorted_wrt (\<lambda>a b. the (publishedTime e b) \<le> the (publishedTime e a)) ns"
  shows "timeSorted e L"
proof -
  let ?R = "\<lambda>x y. case x of None \<Rightarrow> True
                   | Some x' \<Rightarrow> (case y of None \<Rightarrow> True | Some y' \<Rightarrow> (y'::int) \<le> x')"
  have "sorted_wrt (\<lambda>a b. ?R (publishedTime e a) (publishedTime e b)) ns"
    using s
  proof (rule sorted_wrt_mono_rel[rotated])
    fix a b assume "a \<in> set ns" "b \<in> set ns"
      and "the (publishedTime e b) \<le> the (publishedTime e a)"
    with v show "?R (publishedTime e a) (publishedTime e b)" by (auto split: option.splits)
  qed
  then have "sorted_wrt ?R (map (publishedTime e) ns)" by (simp add: sorted_wrt_map)
  then have "sorted_wrt ?R (map (itemTime e) L)" unfolding t .
  then show ?thesis by (simp add: timeSorted_def sorted_wrt_map)
qed

text \<open>
  C8, amended. For the aggregate category the listing \<open>L\<close> is the items of the records
  that survive the de-duplication of the sorted fan-out: the survivors are a subsequence
  of the sorted records, for each URL the survivor is the first record of the sorted
  sequence with that URL, and the URLs of \<open>L\<close> are distinct and non-empty. A missing
  timestamp counts as time 0 (the epoch). When every timestamp that is present parses,
  the sort is the stable sort by decreasing published time, \<open>L\<close> is sorted by decreasing
  time, and a URL that any upstream category returned (however often) is the URL of
  exactly one item.
\<close>

theorem aggregate_listing:
  assumes "category req = ''news''"
  shows "\<exists>all L. allArticles e req = Some all \<and> listing e likesDB store req = Some L
     \<and> L = fst (upsertAll e req likesDB 0 all store)
     \<and> map i_url L = map n_url all \<and> map (itemTime e) L = map (publishedTime e) all
     \<and> subseq all (sortByDate e (fanOut e (q req)))
     \<and> (\<forall>u. u \<noteq> [] \<longrightarrow>
           find (\<lambda>n. n_url n = Some u) all =
           find (\<lambda>n. n_url n = Some u) (sortByDate e (fanOut e (q req))))
     \<and> distinct (map i_url L) \<and> (\<forall>it \<in> set L. truthy_opt (i_url it))
     \<and> (\<forall>it \<in> set L. \<not> truthy_opt (i_publishedAt it) \<longrightarrow> itemTime e it = Some 0)
     \<and> (set (sortByDate e (fanOut e (q req))) = set (fanOut e (q req)) \<longrightarrow>
          (\<forall>u. u \<noteq> [] \<and> (\<exists>n \<in> set (fanOut e (q req)). n_url n = Some u) \<longrightarrow>
             length (filter (\<lambda>it. i_url it = Some u) L) = 1))
     \<and> (list_all (\<lambda>n. publishedTime e n \<noteq> None) (fanOut e (q req)) \<longrightarrow>
          sortByDate e (fanOut e (q req)) =
            sort_key (\<lambda>n. - the (publishedTime e n)) (fanOut e (q req))
          \<and> set (sortByDate e (fanOut e (q req))) = set (fanOut e (q req))
          \<and> (\<forall>t. filter (\<lambda>n. publishedTime e n = Some t) (sortByDate e (fanOut e (q req))) =
                  filter (\<lambda>n. publishedTime e n = Some t) (fanOut e (q req)))
          \<and> timeSorted e L \<and> list_all (\<lambda>it. itemTime e it \<noteq> None) L)"
proof -
  let ?F = "fanOut e (q req)"
  let ?S = "sortByDate e ?F"
  let ?all = "dedupByUrl {} ?S"
  let ?L = "fst (upsertAll e req likesDB 0 ?all store)"
  note N = listing_news[OF assms, of e likesDB store]
  have u: "map i_url ?L = map n_url ?all" by (rule upsertAll_urls)
  have t: "map (itemTime e) ?L = map (publishedTime e) ?all" by (rule upsertAll_times)
  have sub: "subseq ?all ?S" by (rule dedup_subseq)
  have fo: "\<forall>u. u \<noteq> [] \<longrightarrow> find (\<lambda>n. n_url n = Some u) ?all = find (\<lambda>n. n_url n = Some u) ?S"
    by (simp add: dedup_find)
  have d: "distinct (map i_url ?L)" unfolding u by (rule dedup_distinct)
  have tr: "\<forall>it \<in> set ?L. truthy_opt (i_url it)"
  proof
    fix it assume "it \<in> set ?L"
    then have "i_url it \<in> set (map i_url ?L)" by simp
    then have "i_url it \<in> n_url ` set ?all" unfolding u by simp
    then show "truthy_opt (i_url it)" by (auto dest: dedup_elem)
  qed
  have ep: "\<forall>it \<in> set ?L. \<not> truthy_opt (i_publishedAt it) \<longrightarrow> itemTime e it = Some 0"
    by (simp add: itemTime_def)
  have one: "\<forall>u. u \<noteq> [] \<and> (\<exists>n \<in> set ?F. n_url n = Some u) \<longrightarrow>
           length (filter (\<lambda>it. i_url it = Some u) ?L) = 1" if p: "set ?S = set ?F"
  proof (intro allI impI)
    fix u assume a: "u \<noteq> [] \<and> (\<exists>n \<in> set ?F. n_url n = Some u)"
    have "length (filter (\<lambda>it. i_url it = Some u) ?L) =
          length (filter (\<lambda>v. v = Some u) (map i_url ?L))"
      by (simp add: filter_map comp_def)
    also have "\<dots> = length (filter (\<lambda>n. n_url n = Some u) ?all)"
      unfolding u by (simp add: filter_map comp_def)
    also have "\<dots> = 1"
      using a by (simp add: dedup_count p)
    finally show "length (filter (\<lambda>it. i_url it = Some u) ?L) = 1" .
  qed
  have valid: "?S = sort_key (\<lambda>n. - the (publishedTime e n)) ?F
          \<and> set ?S = set ?F
          \<and> (\<forall>t. filter (\<lambda>n. publishedTime e n = Some t) ?S =
                  filter (\<lambda>n. publishedTime e n = Some t) ?F)
          \<and> timeSorted e ?L \<and> list_all (\<lambda>it. itemTime e it \<noteq> None) ?L"
    if h: "list_all (\<lambda>n. publishedTime e n \<noteq> None) ?F"
  proof -
    have va: "\<forall>n \<in> set ?all. publishedTime e n \<noteq> None"
    proof
      fix n assume "n \<in> set ?all"
      then have "n \<in> set ?S" by (auto dest: dedup_elem)
      then have "n \<in> set ?F" by (simp add: sortByDate_set[OF h])
      with h show "publishedTime e n \<noteq> None" by (simp add: list_all_iff)
    qed
    have "sorted_wrt (\<lambda>a b. the (publishedTime e b) \<le> the (publishedTime e a)) ?all"
      by (intro dedup_sorted_wrt sortByDate_sorted h)
    with t va have ts: "timeSorted e ?L" by (rule timeSorted_items)
    have "\<forall>x \<in> set (map (itemTime e) ?L). x \<noteq> None"
      unfolding t using va by simp
    then have "list_all (\<lambda>it. itemTime e it \<noteq> None) ?L"
      by (simp add: list_all_iff)
    with ts sortByDate_valid[OF h] sortByDate_set[OF h] sortByDate_stable[OF h]
    show ?thesis by simp
  qed
  from N u t sub fo d tr ep one valid show ?thesis by blast
qed

lemma fanOut_demo:
  "fanOut demoEnv [] =
     [tagArticle ''technology'' rawA, tagArticle ''technology'' rawN,
      tagArticle ''business'' rawA', tagArticle ''business'' rawB]"
  by (simp add: fanOut_def fetchCategory_def demoEnv_def)

lemma sorted_demo:
  "sortByDate demoEnv (fanOut demoEnv []) =
     [tagArticle ''business'' rawA', tagArticle ''technology'' rawA,
      tagArticle ''technology'' rawN, tagArticle ''business'' rawB]"
  unfolding fanOut_demo sortByDate_def
  by (simp add: publishedTime_def tagArticle_def truthy_opt_def truthy_def
        rawA_def rawA'_def rawB_def rawN_def demoEnv_def)

lemma all_demo:
  "allArticles demoEnv newsRequest =
     Some [tagArticle ''business'' rawA', tagArticle ''business'' rawB]"
  unfolding allArticles_def newsRequest_def
  by (simp add: sorted_demo tagArticle_def truthy_opt_def truthy_def rawA_def rawA'_def rawB_def rawN_def)

lemma listing_news_urls:
  "category req = ''news'' \<Longrightarrow> allArticles e req = Some all \<Longrightarrow>
   map i_url (the (listing e likesDB store req)) = map n_url all"
  by (simp add: listing_Some filteredItems_def upsertAll_urls del: upsertAll.simps)

lemma listing_news_titles:
  "category req = ''news'' \<Longrightarrow> allArticles e req = Some all \<Longrightarrow>
   map i_title (the (listing e likesDB store req)) = map n_title all"
  by (simp add: listing_Some filteredItems_def upsertAll_titles del: upsertAll.simps)

lemma listing_demo_titles:
  "map i_title (the (listing demoEnv Map.empty Map.empty newsRequest)) =
     [Some ''A again'', Some ''B'']"
proof -
  have "category newsRequest = ''news''" by (simp add: newsRequest_def)
  from listing_news_titles[OF this all_demo] show ?thesis
    by (simp add: tagArticle_def rawA'_def rawB_def)
qed

lemma listing_demo_urls:
  "map i_url (the (listing demoEnv Map.empty Map.empty newsRequest)) =
     [Some ''http://x/a'', Some ''http://x/b'']"
proof -
  have "category newsRequest = ''news''" by (simp add: newsRequest_def)
  from listing_news_urls[OF this all_demo] show ?thesis
    by (simp add: tagArticle_def rawA'_def rawB_def)
qed

lemma fanOut_demo_valid:
  "list_all (\<lambda>n. publishedTime demoEnv n \<noteq> None) (fanOut demoEnv (q newsRequest))"
proof -
  have qn: "q newsRequest = []" by (simp add: newsRequest_def)
  show ?thesis
    unfolding qn fanOut_demo
    by (simp add: publishedTime_def tagArticle_def truthy_opt_def truthy_def
          rawA_def rawA'_def rawB_def rawN_def demoEnv_def)
qed

theorem aggregate_listing_witness:
  "category newsRequest = ''news''
   \<and> list_all (\<lambda>n. publishedTime demoEnv n \<noteq> None) (fanOut demoEnv (q newsRequest))
   \<and> (\<exists>n \<in> set (fanOut demoEnv (q newsRequest)). n_url n = Some ''http://x/a'')
   \<and> length (filter (\<lambda>n. n_url n = Some ''http://x/a'') (fanOut demoEnv (q newsRequest))) = 2
   \<and> length (filter (\<lambda>it. i_url it = Some ''http://x/a'')
        (the (listing demoEnv Map.empty Map.empty newsRequest))) = 1
   \<and> distinct (map i_url (the (listing demoEnv Map.empty Map.empty newsRequest)))
   \<and> timeSorted demoEnv (the (listing demoEnv Map.empty Map.empty newsRequest))
   \<and> map i_url (the (listing demoEnv Map.empty Map.empty newsRequest)) =
        [Some ''http://x/a'', Some ''http://x/b'']
   \<and> map i_title (the (listing demoEnv Map.empty Map.empty newsRequest)) =
        [Some ''A again'', Some ''B'']"
proof -
  have c: "category newsRequest = ''news''" and qn: "q newsRequest = []"
    by (simp_all add: newsRequest_def)
  note h = fanOut_demo_valid
  have ex: "\<exists>n \<in> set (fanOut demoEnv (q newsRequest)). n_url n = Some ''http://x/a''"
    by (simp add: qn fanOut_demo tagArticle_def rawA_def)
  have two: "length (filter (\<lambda>n. n_url n = Some ''http://x/a'') (fanOut demoEnv (q newsRequest))) = 2"
    by (simp add: qn fanOut_demo tagArticle_def rawA_def rawA'_def rawB_def rawN_def)
  from aggregate_listing[OF c, of demoEnv Map.empty Map.empty] h obtain L where
    L: "listing demoEnv Map.empty Map.empty newsRequest = Some L"
    and d: "distinct (map i_url L)"
    and s: "timeSorted demoEnv L"
    and p: "set (sortByDate demoEnv (fanOut demoEnv (q newsRequest))) =
            set (fanOut demoEnv (q newsRequest))"
    and one: "set (sortByDate demoEnv (fanOut demoEnv (q newsRequest))) =
                set (fanOut demoEnv (q newsRequest)) \<longrightarrow>
          (\<forall>u. u \<noteq> [] \<and> (\<exists>n \<in> set (fanOut demoEnv (q newsRequest)). n_url n = Some u) \<longrightarrow>
             length (filter (\<lambda>it. i_url it = Some u) L) = 1)"
    by blast
  from one p ex have "length (filter (\<lambda>it. i_url it = Some ''http://x/a'') L) = 1"
    by simp
  with c h ex two d s L listing_demo_urls listing_demo_titles show ?thesis by simp
qed

lemma fanOut_nan:
  "fanOut nanEnv [] =
     [tagArticle ''technology'' rawOld, tagArticle ''technology'' rawBad,
      tagArticle ''technology'' rawNew]"
  by (simp add: fanOut_def fetchCategory_def nanEnv_def)

lemma bad_time: "publishedTime nanEnv (tagArticle ''technology'' rawBad) = None"
  by (simp add: publishedTime_def tagArticle_def rawBad_def truthy_opt_def truthy_def
        nanEnv_def demoEnv_def)

lemma sorted_nan: "sortByDate nanEnv (fanOut nanEnv []) = fanOut nanEnv []"
  unfolding fanOut_nan sortByDate_def
  by (simp add: bad_time) (simp add: nanEnv_def)

lemma all_nan:
  "allArticles nanEnv newsRequest =
     Some [tagArticle ''technology'' rawOld, tagArticle ''technology'' rawBad,
           tagArticle ''technology'' rawNew]"
  unfolding allArticles_def newsRequest_def
  by (simp add: sorted_nan) (simp add: fanOut_nan tagArticle_def truthy_opt_def truthy_def
        rawOld_def rawBad_def rawNew_def)

lemma listing_nan:
  "listing nanEnv Map.empty Map.empty newsRequest =
     Some (fst (upsertAll nanEnv newsRequest Map.empty 0
       [tagArticle ''technology'' rawOld, tagArticle ''technology'' rawBad,
        tagArticle ''technology'' rawNew] Map.empty))"
proof -
  have "category newsRequest = ''news''" by (simp add: newsRequest_def)
  then show ?thesis
    by (simp add: listing_Some[OF all_nan] filteredItems_def del: upsertAll.simps)
qed

text \<open>
  C8, as stated: the aggregate listing is sorted by decreasing published time. With the
  feed of \<open>nanEnv\<close> the listing is in the order of the feed, the old record before the
  new one.
\<close>

theorem aggregate_listing_unsorted:
  "map i_title (the (listing nanEnv Map.empty Map.empty newsRequest)) =
     [Some ''old'', Some ''bad'', Some ''new'']
   \<and> map (itemTime nanEnv) (the (listing nanEnv Map.empty Map.empty newsRequest)) =
     [Some 1704067200000, None, Some 1704153600000]
   \<and> \<not> timeSorted nanEnv (the (listing nanEnv Map.empty Map.empty newsRequest))"
proof -
  let ?L = "the (listing nanEnv Map.empty Map.empty newsRequest)"
  have ti: "map i_title ?L = [Some ''old'', Some ''bad'', Some ''new'']"
    by (simp add: listing_nan upsertAll_titles tagArticle_def rawOld_def rawBad_def rawNew_def
          del: upsertAll.simps)
  have "map (itemTime nanEnv) ?L =
        map (publishedTime nanEnv)
          [tagArticle ''technology'' rawOld, tagArticle ''technology'' rawBad,
           tagArticle ''technology'' rawNew]"
    by (simp add: listing_nan upsertAll_times del: upsertAll.simps)
  then have tm: "map (itemTime nanEnv) ?L = [Some 1704067200000, None, Some 1704153600000]"
    by (simp add: publishedTime_def tagArticle_def truthy_opt_def
          truthy_def rawOld_def rawBad_def rawNew_def nanEnv_def demoEnv_def)
  have "timeSorted nanEnv ?L =
        sorted_wrt (\<lambda>x y. case x of None \<Rightarrow> True
                   | Some x' \<Rightarrow> (case y of None \<Rightarrow> True | Some y' \<Rightarrow> (y'::int) \<le> x'))
          (map (itemTime nanEnv) ?L)"
    by (simp add: timeSorted_def sorted_wrt_map)
  then have "\<not> timeSorted nanEnv ?L"
    unfolding tm by simp
  with ti tm show ?thesis by simp
qed


subsection \<open>The example listing of one category\<close>

lemma tech_known: "category techRequest \<in> {''tech'', ''business'', ''world'', ''sports''}"
  by (simp add: techRequest_def)

lemma tech_fetch_demo:
  "httpJSON demoEnv \<lparr>hq_category = (case categoryMap (category techRequest) of None \<Rightarrow> ''general'' | Some c \<Rightarrow> c),
                  hq_q = Some (q techRequest), hq_pageSize = ''50''\<rparr> = Some (Some [rawA, rawN])"
  by (simp add: demoEnv_def techRequest_def categoryMap_def)

lemma tech_category: "category techRequest = ''tech''"
  by (simp add: techRequest_def)

lemma show_clock: "show_nat (Date_now demoEnv (Suc 0)) = ''1700000000001''"
  by (simp add: demoEnv_def show_nat.simps digit_char_def)

theorem urlless_records_witness:
  "category newsRequest = ''news''
   \<and> map n_url (fanOut demoEnv (q newsRequest)) =
       [Some ''http://x/a'', None, Some ''http://x/a'', Some ''http://x/b'']
   \<and> allArticles demoEnv newsRequest =
       Some [tagArticle ''business'' rawA', tagArticle ''business'' rawB]
   \<and> snd (listArticles demoEnv Map.empty Map.empty newsRequest) =
       snd (upsertAll demoEnv newsRequest Map.empty 0
              [tagArticle ''business'' rawA', tagArticle ''business'' rawB] Map.empty)
   \<and> map i_url (the (listing demoEnv Map.empty Map.empty newsRequest)) =
       [Some ''http://x/a'', Some ''http://x/b'']
   \<and> list_all (\<lambda>it. truthy_opt (i_url it))
        (resp_items (fst (listArticles demoEnv Map.empty Map.empty newsRequest)))
   \<and> category techRequest \<in> {''tech'', ''business'', ''world'', ''sports''}
   \<and> \<not> truthy_opt (r_url ([rawA, rawN] ! 1))
   \<and> length (the (listing demoEnv Map.empty Map.empty techRequest)) = 2
   \<and> i_id (the (listing demoEnv Map.empty Map.empty techRequest) ! 1) = ''local_1700000000001''
   \<and> i_url (the (listing demoEnv Map.empty Map.empty techRequest) ! 1) = None
   \<and> i_title (the (listing demoEnv Map.empty Map.empty techRequest) ! 1) = Some ''N''
   \<and> memberOf (snd (listArticles demoEnv Map.empty Map.empty techRequest))
        ''local_1700000000001'' ''tech''"
proof -
  have c: "category newsRequest = ''news''" and qn: "q newsRequest = []"
    by (simp_all add: newsRequest_def)
  have f: "map n_url (fanOut demoEnv (q newsRequest)) =
       [Some ''http://x/a'', None, Some ''http://x/a'', Some ''http://x/b'']"
    by (simp add: qn fanOut_demo tagArticle_def rawA_def rawA'_def rawB_def rawN_def)
  have nu: "\<not> truthy_opt (r_url ([rawA, rawN] ! 1))"
    by (simp add: rawN_def truthy_opt_def)
  note T = urlless_records[of newsRequest demoEnv Map.empty Map.empty "[rawA, rawN]"]
  from T c obtain all L where
    a: "allArticles demoEnv newsRequest = Some all"
    and s: "snd (listArticles demoEnv Map.empty Map.empty newsRequest) =
            snd (upsertAll demoEnv newsRequest Map.empty 0 all Map.empty)"
    and r: "\<forall>it \<in> set (resp_items (fst (listArticles demoEnv Map.empty Map.empty newsRequest))).
              truthy_opt (i_url it)"
    by blast
  from a have all: "all = [tagArticle ''business'' rawA', tagArticle ''business'' rawB]"
    by (simp add: all_demo)
  note U = urlless_records[of techRequest demoEnv Map.empty Map.empty "[rawA, rawN]"]
  from U tech_known tech_fetch_demo obtain L' where
    l: "listing demoEnv Map.empty Map.empty techRequest = Some L'"
    and len: "length L' = length [rawA, rawN]"
    and each: "\<forall>i < length [rawA, rawN]. \<not> truthy_opt (r_url ([rawA, rawN] ! i)) \<longrightarrow>
               i_id (L' ! i) = ''local_'' @ show_nat (Date_now demoEnv i)
               \<and> i_url (L' ! i) = r_url ([rawA, rawN] ! i) \<and> i_title (L' ! i) = r_title ([rawA, rawN] ! i)
               \<and> memberOf (snd (listArticles demoEnv Map.empty Map.empty techRequest)) (i_id (L' ! i))
                    (category techRequest)"
    by blast
  have "(1::nat) < length [rawA, rawN]" by simp
  from each[rule_format, OF this nu] have one: "i_id (L' ! 1) = ''local_'' @ show_nat (Date_now demoEnv 1)
               \<and> i_url (L' ! 1) = r_url ([rawA, rawN] ! 1) \<and> i_title (L' ! 1) = r_title ([rawA, rawN] ! 1)
               \<and> memberOf (snd (listArticles demoEnv Map.empty Map.empty techRequest)) (i_id (L' ! 1))
                    (category techRequest)" .
  from one have id1: "i_id (L' ! 1) = ''local_1700000000001''"
    by (simp add: show_clock)
  from one have u1: "i_url (L' ! 1) = None" and t1: "i_title (L' ! 1) = Some ''N''"
    by (simp_all add: rawN_def)
  from one have "memberOf (snd (listArticles demoEnv Map.empty Map.empty techRequest)) (i_id (L' ! 1))
                    (category techRequest)"
    by blast
  then have m1: "memberOf (snd (listArticles demoEnv Map.empty Map.empty techRequest))
        ''local_1700000000001'' ''tech''"
    unfolding id1 tech_category .
  from id1 u1 t1 m1 c f all_demo s all listing_demo_urls r tech_known nu l len show ?thesis
    by (simp add: list_all_iff)
qed


subsection \<open>The example with 25 items\<close>

lemma fetch25:
  "httpJSON env25 \<lparr>hq_category = (case categoryMap (category (techRequest\<lparr>page := p\<rparr>)) of None \<Rightarrow> ''general'' | Some c \<Rightarrow> c),
                  hq_q = Some (q (techRequest\<lparr>page := p\<rparr>)), hq_pageSize = ''50''\<rparr> =
     Some (Some (replicate 25 rawA))"
  by (simp add: env25_def)

lemma listing25:
  "\<exists>L. listing env25 Map.empty Map.empty (techRequest\<lparr>page := p\<rparr>) = Some L \<and> length L = 25"
proof -
  have "category (techRequest\<lparr>page := p\<rparr>) \<in> {''tech'', ''business'', ''world'', ''sports''}"
    by (simp add: techRequest_def)
  from listing_single[OF this fetch25, of Map.empty Map.empty] show ?thesis
    by (simp add: upsertAll_length del: upsertAll.simps)
qed

theorem listArticles_pagination_witness:
  "length (the (listing env25 Map.empty Map.empty (techRequest\<lparr>page := 1\<rparr>))) = 25
   \<and> fst (listArticles env25 Map.empty Map.empty (techRequest\<lparr>page := 1\<rparr>)) =
       \<lparr>resp_items = take 10 (the (listing env25 Map.empty Map.empty (techRequest\<lparr>page := 1\<rparr>))),
        totalResults = 25\<rparr>
   \<and> fst (listArticles env25 Map.empty Map.empty (techRequest\<lparr>page := 3\<rparr>)) =
       \<lparr>resp_items = drop 20 (the (listing env25 Map.empty Map.empty (techRequest\<lparr>page := 3\<rparr>))),
        totalResults = 25\<rparr>
   \<and> length (resp_items (fst (listArticles env25 Map.empty Map.empty (techRequest\<lparr>page := 3\<rparr>)))) = 5
   \<and> resp_items (fst (listArticles env25 Map.empty Map.empty (techRequest\<lparr>page := 4\<rparr>))) = []
   \<and> totalResults (fst (listArticles env25 Map.empty Map.empty (techRequest\<lparr>page := 4\<rparr>))) = 25"
proof -
  obtain L1 where L1: "listing env25 Map.empty Map.empty (techRequest\<lparr>page := 1\<rparr>) = Some L1"
    and n1: "length L1 = 25" using listing25[of 1] by blast
  obtain L3 where L3: "listing env25 Map.empty Map.empty (techRequest\<lparr>page := 3\<rparr>) = Some L3"
    and n3: "length L3 = 25" using listing25[of 3] by blast
  obtain L4 where L4: "listing env25 Map.empty Map.empty (techRequest\<lparr>page := 4\<rparr>) = Some L4"
    and n4: "length L4 = 25" using listing25[of 4] by blast
  have p1: "length L1 = 25 \<and> pageSize (techRequest\<lparr>page := 1\<rparr>) = 10 \<and> page (techRequest\<lparr>page := 1\<rparr>) = 1"
    by (simp add: n1 techRequest_def)
  have p3: "length L3 = 25 \<and> pageSize (techRequest\<lparr>page := 3\<rparr>) = 10 \<and> page (techRequest\<lparr>page := 3\<rparr>) = 3"
    by (simp add: n3 techRequest_def)
  have p4: "int (length L4) \<le> (page (techRequest\<lparr>page := 4\<rparr>) - 1) * pageSize (techRequest\<lparr>page := 4\<rparr>)"
    by (simp add: n4 techRequest_def)
  from listArticles_pagination[OF L1] p1
  have a: "fst (listArticles env25 Map.empty Map.empty (techRequest\<lparr>page := 1\<rparr>)) =
       \<lparr>resp_items = take 10 L1, totalResults = 25\<rparr>" by blast
  from listArticles_pagination[OF L3] p3
  have b: "fst (listArticles env25 Map.empty Map.empty (techRequest\<lparr>page := 3\<rparr>)) =
       \<lparr>resp_items = drop 20 L3, totalResults = 25\<rparr>
       \<and> length (resp_items (fst (listArticles env25 Map.empty Map.empty (techRequest\<lparr>page := 3\<rparr>)))) = 5"
    by blast
  from listArticles_pagination[OF L4] p4
  have c: "resp_items (fst (listArticles env25 Map.empty Map.empty (techRequest\<lparr>page := 4\<rparr>))) = []"
    by blast
  from listArticles_pagination[OF L4]
  have "totalResults (fst (listArticles env25 Map.empty Map.empty (techRequest\<lparr>page := 4\<rparr>))) = length L4"
    by blast
  then have d: "totalResults (fst (listArticles env25 Map.empty Map.empty (techRequest\<lparr>page := 4\<rparr>))) = 25"
    unfolding n4 .
  from a b c d n3 show ?thesis
    by (simp only: L1 L3 n1 option.sel) simp
qed


subsection \<open>The merge of a sighting into the catalogue\<close>

text \<open>
  C5, as stated: where the stored and the incoming value of a field are both populated,
  the stored one is kept. The article \<open>x1\<close> is stored with the title \<open>Old title\<close>; after a
  sighting with the title \<open>A\<close> the stored title is \<open>A\<close>.
\<close>

theorem upsert_incoming_wins:
  "a_title oldArticle = Some ''Old title''
   \<and> n_title (tagArticle ''technology'' rawA) = Some ''A''
   \<and> map_option a_title (upsert [''x1'' \<mapsto> oldArticle] ''x1'' (tagArticle ''technology'' rawA) ''x1'')
       = Some (Some ''A'')"
  by (simp add: oldArticle_def upsert_def upsertRecord_def existingField_def js_or_def
        truthy_opt_def truthy_def tagArticle_def rawA_def Let_def)

lemma js_or_idem: "js_or a (js_or a b) = js_or a b"
  by (simp add: js_or_def)

lemma js_or_source_idem:
  "js_or (js_or a (js_or (js_or a b) (Some []))) (Some []) = js_or (js_or a b) (Some [])"
  by (simp add: js_or_def truthy_opt_def truthy_def)

lemma Set_new_append_known:
  "distinct ys \<Longrightarrow> set zs \<subseteq> set ys \<Longrightarrow> Set_new (ys @ zs) = ys"
proof (induction ys arbitrary: zs)
  case Nil
  then show ?case by simp
next
  case (Cons y ys)
  from Cons.prems have "distinct ys" and "set (removeAll y zs) \<subseteq> set ys"
    by auto
  then have "Set_new (ys @ removeAll y zs) = ys" by (rule Cons.IH)
  with Cons.prems(1) show ?case by (simp add: removeAll_id)
qed

lemma Set_new_again:
  "Set_new (Set_new (xs @ [c, d]) @ [c, d]) = Set_new (xs @ [c, d])"
  by (rule Set_new_append_known) (simp_all add: distinct_Set_new set_Set_new)

lemma upsertRecord_idem:
  "upsertRecord (Some (upsertRecord existing aid n)) aid n = upsertRecord existing aid n"
  by (simp add: upsertRecord_def existingField_def js_or_idem js_or_source_idem Set_new_again Let_def)

text \<open>
  C5, amended: each of title, summary, cover, publishedAt, url and source takes the
  incoming value when that is populated (truthy) and keeps the stored value otherwise
  (the source falling back to the empty string when neither is populated). So an empty
  incoming value never erases a populated stored one, a populated incoming value replaces
  the stored one, and upserting the same sighting under the same id twice leaves the
  record as the first upsert made it.
\<close>

theorem upsert_merge:
  "a_title (upsertRecord existing aid n) =
     (if truthy_opt (n_title n) then n_title n else existingField existing a_title)
   \<and> a_summary (upsertRecord existing aid n) =
     (if truthy_opt (n_description n) then n_description n else existingField existing a_summary)
   \<and> a_cover (upsertRecord existing aid n) =
     (if truthy_opt (n_urlToImage n) then n_urlToImage n else existingField existing a_cover)
   \<and> a_publishedAt (upsertRecord existing aid n) =
     (if truthy_opt (n_publishedAt n) then n_publishedAt n else existingField existing a_publishedAt)
   \<and> a_url (upsertRecord existing aid n) =
     (if truthy_opt (n_url n) then n_url n else existingField existing a_url)
   \<and> a_source (upsertRecord existing aid n) =
     (if truthy_opt (n_sourceName n) then n_sourceName n
      else if truthy_opt (existingField existing a_source) then existingField existing a_source
      else Some [])
   \<and> upsert store aid n aid = Some (upsertRecord (store aid) aid n)
   \<and> upsert (upsert store aid n) aid n = upsert store aid n"
  by (simp add: upsert_def upsertRecord_idem) (simp add: upsertRecord_def js_or_def Let_def)

subsection \<open>Category memberships\<close>

lemma trending_demo_fetch:
  "httpJSON demoEnv \<lparr>hq_category = ''technology'', hq_q = None, hq_pageSize = ''10''\<rparr> =
     Some (Some [rawA, rawN])"
  by (simp add: demoEnv_def)

lemma id_rawA: "trendItemId demoEnv 0 rawA = ''#http://x/a''"
  by (simp add: trendItemId_def makeIdFromUrl_def rawA_def truthy_opt_def truthy_def demoEnv_def
        demoHash_def Let_def)

lemma id_rawN: "trendItemId demoEnv (Suc 0) rawN = ''local_1700000000001''"
  by (simp add: trendItemId_def makeIdFromUrl_def rawN_def truthy_opt_def truthy_def show_clock Let_def)

lemma trending_demo_store:
  "snd (trending demoEnv Map.empty Map.empty) =
     [''#http://x/a'' \<mapsto> trendingRecord ''#http://x/a'' rawA,
      ''local_1700000000001'' \<mapsto> trendingRecord ''local_1700000000001'' rawN]"
  by (simp add: trending_def trending_demo_fetch id_rawA id_rawN Let_def)

text \<open>
  C7, as stated: every record has a category membership set with \<open>news\<close> in it after any
  operation that creates it. The record that the trending endpoint creates for a new
  article has \<^verbatim>\<open>category: 'tech'\<close> and no membership set at all.
\<close>

theorem trending_record_without_categories:
  "map_option a_categories (snd (trending demoEnv Map.empty Map.empty) ''#http://x/a'') = Some None
   \<and> map_option a_category (snd (trending demoEnv Map.empty Map.empty) ''#http://x/a'') =
       Some (Some ''tech'')
   \<and> \<not> memberOf (snd (trending demoEnv Map.empty Map.empty)) ''#http://x/a'' ''news''
   \<and> \<not> memberOf (snd (trending demoEnv Map.empty Map.empty)) ''#http://x/a'' ''tech''"
  by (simp add: trending_demo_store trendingRecord_def memberOf_def)

lemma memberOf_iff:
  "memberOf store aid c \<longleftrightarrow> (\<exists>a cs. store aid = Some a \<and> a_categories a = Some cs \<and> c \<in> set cs)"
  by (auto simp: memberOf_def split: option.splits)

text \<open>
  C7, amended: after a list request, every record that the request created or updated
  (the record under the id of each catalogued sighting) has a non-empty membership set
  that holds the category of the sighting and \<open>news\<close>; every other entry of the catalogue
  is as before; and no membership is ever removed.
\<close>

theorem listArticles_memberships:
  assumes "allArticles e req = Some all"
  shows "(\<forall>i < length all.
            \<exists>a cs. snd (listArticles e likesDB store req) (newsItemId e req i (all ! i)) = Some a
               \<and> a_categories a = Some cs \<and> cs \<noteq> []
               \<and> frontendCat (all ! i) \<in> set cs \<and> ''news'' \<in> set cs)
     \<and> (\<forall>aid. (\<forall>i < length all. newsItemId e req i (all ! i) \<noteq> aid) \<longrightarrow>
            snd (listArticles e likesDB store req) aid = store aid)
     \<and> (\<forall>aid c. memberOf store aid c \<longrightarrow> memberOf (snd (listArticles e likesDB store req)) aid c)"
proof -
  let ?s = "snd (upsertAll e req likesDB 0 all store)"
  have st: "snd (listArticles e likesDB store req) = ?s"
    by (simp add: listArticles_Some[OF assms])
  have a: "\<exists>a cs. ?s (newsItemId e req i (all ! i)) = Some a
               \<and> a_categories a = Some cs \<and> cs \<noteq> []
               \<and> frontendCat (all ! i) \<in> set cs \<and> ''news'' \<in> set cs" if i: "i < length all" for i
  proof -
    from upsertAll_member[OF i, of e req likesDB 0 store]
    have f: "memberOf ?s (newsItemId e req i (all ! i)) (frontendCat (all ! i))"
      and n: "memberOf ?s (newsItemId e req i (all ! i)) ''news''" by simp_all
    from f obtain a cs where "?s (newsItemId e req i (all ! i)) = Some a"
      and "a_categories a = Some cs" and "frontendCat (all ! i) \<in> set cs"
      unfolding memberOf_iff by blast
    moreover with n have "''news'' \<in> set cs" unfolding memberOf_iff by auto
    ultimately show ?thesis by auto
  qed
  have b: "?s aid = store aid" if "\<forall>i < length all. newsItemId e req i (all ! i) \<noteq> aid" for aid
    using upsertAll_untouched[of all e req 0 aid likesDB store] that by simp
  have c: "memberOf ?s aid c" if "memberOf store aid c" for aid c
    using that by (rule memberOf_upsertAll_mono)
  from a b c show ?thesis unfolding st by blast
qed

lemma newsId_A: "newsItemId demoEnv newsRequest 0 (tagArticle ''business'' rawA') = ''#http://x/a''"
  by (simp add: newsItemId_def makeIdFromUrl_def tagArticle_def rawA'_def truthy_opt_def truthy_def
        demoEnv_def demoHash_def Let_def)

lemma frontend_A: "frontendCat (tagArticle ''business'' rawA') = ''business''"
  by (simp add: frontendCat_def tagArticle_def reverseMap_def)

theorem listArticles_memberships_witness:
  "allArticles demoEnv newsRequest =
     Some [tagArticle ''business'' rawA', tagArticle ''business'' rawB]
   \<and> memberOf (snd (listArticles demoEnv Map.empty Map.empty newsRequest)) ''#http://x/a'' ''business''
   \<and> memberOf (snd (listArticles demoEnv Map.empty Map.empty newsRequest)) ''#http://x/a'' ''news''
   \<and> snd (listArticles demoEnv Map.empty Map.empty newsRequest) ''local_1700000000001'' = None
   \<and> memberOf (snd (listArticles demoEnv Map.empty (snd (trending demoEnv Map.empty Map.empty))
        newsRequest)) ''#http://x/a'' ''news''"
proof -
  let ?all = "[tagArticle ''business'' rawA', tagArticle ''business'' rawB]"
  note T = listArticles_memberships[OF all_demo, of Map.empty Map.empty]
  note T' = listArticles_memberships[OF all_demo, of Map.empty "snd (trending demoEnv Map.empty Map.empty)"]
  have z: "(0::nat) < length ?all" by simp
  from T z have "\<exists>a cs. snd (listArticles demoEnv Map.empty Map.empty newsRequest)
                   (newsItemId demoEnv newsRequest 0 (?all ! 0)) = Some a
               \<and> a_categories a = Some cs \<and> cs \<noteq> []
               \<and> frontendCat (?all ! 0) \<in> set cs \<and> ''news'' \<in> set cs"
    by blast
  then have m: "memberOf (snd (listArticles demoEnv Map.empty Map.empty newsRequest)) ''#http://x/a'' ''business''
      \<and> memberOf (snd (listArticles demoEnv Map.empty Map.empty newsRequest)) ''#http://x/a'' ''news''"
    by (auto simp: memberOf_iff newsId_A frontend_A)
  from T' z have "\<exists>a cs. snd (listArticles demoEnv Map.empty (snd (trending demoEnv Map.empty Map.empty)) newsRequest)
                   (newsItemId demoEnv newsRequest 0 (?all ! 0)) = Some a
               \<and> a_categories a = Some cs \<and> cs \<noteq> []
               \<and> frontendCat (?all ! 0) \<in> set cs \<and> ''news'' \<in> set cs"
    by blast
  then have m': "memberOf (snd (listArticles demoEnv Map.empty (snd (trending demoEnv Map.empty Map.empty))
        newsRequest)) ''#http://x/a'' ''news''"
    by (auto simp: memberOf_iff newsId_A frontend_A)
  have ids: "\<forall>i < length ?all. newsItemId demoEnv newsRequest i (?all ! i) \<noteq> ''local_1700000000001''"
    by (auto simp: less_Suc_eq newsItemId_def makeIdFromUrl_def tagArticle_def rawA'_def rawB_def
          truthy_opt_def truthy_def demoEnv_def demoHash_def Let_def)
  with T have "snd (listArticles demoEnv Map.empty Map.empty newsRequest) ''local_1700000000001'' =
       Map.empty ''local_1700000000001''" by blast
  with m m' all_demo show ?thesis by simp
qed


subsection \<open>When every upstream call fails\<close>

lemma fanOut_fail: "\<forall>qy. httpJSON e qy = None \<Longrightarrow> fanOut e query = []"
  by (simp add: fanOut_def fetchCategory_def)

text \<open>
  What the handler does when every upstream call fails: it still answers, and leaves the
  catalogue alone. For a single category the exception reaches the outer \<^verbatim>\<open>catch\<close> and the
  answer is the two placeholder items (\<open>totalResults = 2\<close>). For the aggregate category
  each failed call is caught on its own and contributes no record, the outer \<^verbatim>\<open>catch\<close> is
  never reached, and the answer is the empty item sequence with \<open>totalResults = 0\<close>.
\<close>

theorem listArticles_all_fetches_fail:
  assumes "\<forall>qy. httpJSON e qy = None"
  shows "(category req \<noteq> ''news'' \<longrightarrow>
           listArticles e likesDB store req =
             (\<lparr>resp_items = sample e req, totalResults = 2\<rparr>, store)
           \<and> length (sample e req) = 2
           \<and> map i_category (sample e req) = [category req, category req]
           \<and> map i_url (sample e req) = [Some [], Some []])
       \<and> (category req = ''news'' \<longrightarrow>
           listArticles e likesDB store req = (\<lparr>resp_items = [], totalResults = 0\<rparr>, store))"
proof (intro conjI impI)
  assume "category req \<noteq> ''news''"
  with assms have "allArticles e req = None"
    by (simp add: allArticles_def Let_def)
  then show "listArticles e likesDB store req = (\<lparr>resp_items = sample e req, totalResults = 2\<rparr>, store)"
    by (simp add: listArticles_def sample_def)
  show "length (sample e req) = 2" by (simp add: sample_def)
  show "map i_category (sample e req) = [category req, category req]" by (simp add: sample_def)
  show "map i_url (sample e req) = [Some [], Some []]" by (simp add: sample_def)
next
  assume n: "category req = ''news''"
  with assms have "allArticles e req = Some []"
    by (simp add: allArticles_def fanOut_fail sortByDate_def)
  then show "listArticles e likesDB store req = (\<lparr>resp_items = [], totalResults = 0\<rparr>, store)"
    by (simp add: listArticles_def filteredItems_def paginate_def js_slice_def n Let_def)
qed

text \<open>
  C3. The claim: with every upstream call failing, the list endpoint answers with a
  non-empty set of placeholder items, for the aggregate category \<open>news\<close> too. In the
  environment where every call fails, the request for \<open>tech\<close> is answered with the two
  placeholders, the request for \<open>news\<close> with no item at all.
\<close>

theorem listArticles_news_offline_empty:
  "listArticles failingEnv Map.empty Map.empty newsRequest =
     (\<lparr>resp_items = [], totalResults = 0\<rparr>, Map.empty)
   \<and> listArticles failingEnv Map.empty Map.empty techRequest =
     (\<lparr>resp_items = sample failingEnv techRequest, totalResults = 2\<rparr>, Map.empty)
   \<and> length (sample failingEnv techRequest) = 2"
  by (simp add: listArticles_def allArticles_def fanOut_def fetchCategory_def sortByDate_def
        filteredItems_def paginate_def js_slice_def failingEnv_def newsRequest_def techRequest_def
        categoryMap_def sample_def Let_def)

theorem listArticles_all_fetches_fail_witness:
  "(\<forall>qy. httpJSON failingEnv qy = None)
   \<and> listArticles failingEnv Map.empty Map.empty techRequest =
       (\<lparr>resp_items = sample failingEnv techRequest, totalResults = 2\<rparr>, Map.empty)
   \<and> map i_id (sample failingEnv techRequest) = [''local_1700000000000_1'', ''local_1700000000002_2'']
   \<and> listArticles failingEnv Map.empty Map.empty newsRequest =
       (\<lparr>resp_items = [], totalResults = 0\<rparr>, Map.empty)"
proof -
  have f: "\<forall>qy. httpJSON failingEnv qy = None" by (simp add: failingEnv_def)
  have t: "category techRequest \<noteq> ''news''" and n: "category newsRequest = ''news''"
    by (simp_all add: techRequest_def newsRequest_def)
  have ids: "map i_id (sample failingEnv techRequest) = [''local_1700000000000_1'', ''local_1700000000002_2'']"
    by (simp add: sample_def failingEnv_def show_nat.simps digit_char_def)
  from listArticles_all_fetches_fail[OF f, of techRequest Map.empty Map.empty] t
       listArticles_all_fetches_fail[OF f, of newsRequest Map.empty Map.empty] n f ids
  show ?thesis by blast
qed

end
